theory Spec2Isabelle
  imports Complex_Main
begin

section \<open>Calendar arithmetic of the JavaScript runtime\<close>

text \<open>
  A JavaScript \<open>Date\<close> holds a time value: the milliseconds since 1970-01-01T00:00:00Z, an
  integer. The functions below are the abstract operations of the language standard that the
  methods \<open>getUTCFullYear\<close>, \<open>getUTCMonth\<close>, \<open>getUTCDate\<close>, \<open>getUTCDay\<close>, \<open>setUTCDate\<close>,
  \<open>Date.UTC\<close> and \<open>toISOString\<close> are defined by. Months count from 0, week days from
  Sunday = 0. The range check of time values (plus or minus 8.64e15 ms) is left out.
\<close>

definition msPerDay :: int where
  "msPerDay = 86400000"

definition Day :: "int \<Rightarrow> int" where
  "Day t = t div msPerDay"

definition TimeWithinDay :: "int \<Rightarrow> int" where
  "TimeWithinDay t = t mod msPerDay"

definition DayFromYear :: "int \<Rightarrow> int" where
  "DayFromYear y =
     365 * (y - 1970) + (y - 1969) div 4 - (y - 1901) div 100 + (y - 1601) div 400"

definition leap_year :: "int \<Rightarrow> bool" where
  "leap_year y = (y mod 4 = 0 \<and> (y mod 100 \<noteq> 0 \<or> y mod 400 = 0))"

text \<open>
  \<open>YearFromTime\<close> is the largest year whose first day is not after the given day. The search
  runs downwards from a year that is not too small and stops at the latest at a year that
  is not too large: a year has 365 or 366 days.
\<close>

function year_search :: "int \<Rightarrow> int \<Rightarrow> int \<Rightarrow> int" where
  "year_search lo y d =
     (if y \<le> lo \<or> DayFromYear y \<le> d then y else year_search lo (y - 1) d)"
  by pat_completeness auto
termination
  by (relation "measure (\<lambda>(lo, y, d). nat (y - lo))") auto

definition YearFromDay :: "int \<Rightarrow> int" where
  "YearFromDay d =
     year_search (1969 + min (d div 365) (d div 366)) (1971 + max (d div 365) (d div 366)) d"

definition YearFromTime :: "int \<Rightarrow> int" where
  "YearFromTime t = YearFromDay (Day t)"

definition InLeapYear :: "int \<Rightarrow> int" where
  "InLeapYear t = (if leap_year (YearFromTime t) then 1 else 0)"

definition DayWithinYear :: "int \<Rightarrow> int" where
  "DayWithinYear t = Day t - DayFromYear (YearFromTime t)"

definition MonthFromTime :: "int \<Rightarrow> int" where
  "MonthFromTime t =
     (let d = DayWithinYear t; l = InLeapYear t in
      if d < 31 then 0
      else if d < 59 + l then 1
      else if d < 90 + l then 2
      else if d < 120 + l then 3
      else if d < 151 + l then 4
      else if d < 181 + l then 5
      else if d < 212 + l then 6
      else if d < 243 + l then 7
      else if d < 273 + l then 8
      else if d < 304 + l then 9
      else if d < 334 + l then 10
      else 11)"

definition DateFromTime :: "int \<Rightarrow> int" where
  "DateFromTime t =
     (let d = DayWithinYear t; l = InLeapYear t; m = MonthFromTime t in
      if m = 0 then d + 1
      else if m = 1 then d - 30
      else if m = 2 then d - 58 - l
      else if m = 3 then d - 89 - l
      else if m = 4 then d - 119 - l
      else if m = 5 then d - 150 - l
      else if m = 6 then d - 180 - l
      else if m = 7 then d - 211 - l
      else if m = 8 then d - 242 - l
      else if m = 9 then d - 272 - l
      else if m = 10 then d - 303 - l
      else d - 333 - l)"

definition WeekDay :: "int \<Rightarrow> int" where
  "WeekDay t = (Day t + 4) mod 7"

text \<open>The day number of the first day of month \<open>m\<close> (0 to 11) within its year.\<close>

definition month_start :: "int \<Rightarrow> int \<Rightarrow> int" where
  "month_start m l =
     (if m = 0 then 0
      else if m = 1 then 31
      else if m = 2 then 59 + l
      else if m = 3 then 90 + l
      else if m = 4 then 120 + l
      else if m = 5 then 151 + l
      else if m = 6 then 181 + l
      else if m = 7 then 212 + l
      else if m = 8 then 243 + l
      else if m = 9 then 273 + l
      else if m = 10 then 304 + l
      else 334 + l)"

definition MakeDay :: "int \<Rightarrow> int \<Rightarrow> int \<Rightarrow> int" where
  "MakeDay year month date =
     (let ym = year + month div 12; mn = month mod 12 in
      DayFromYear ym + month_start mn (if leap_year ym then 1 else 0) + date - 1)"

definition MakeDate :: "int \<Rightarrow> int \<Rightarrow> int" where
  "MakeDate day time = day * msPerDay + time"

text \<open>\<open>Date.UTC(y, m, d)\<close>: a year from 0 to 99 stands for 1900 + y.\<close>

definition Date_UTC :: "int \<Rightarrow> int \<Rightarrow> int \<Rightarrow> int" where
  "Date_UTC y m d =
     (let yr = (if 0 \<le> y \<and> y \<le> 99 then 1900 + y else y) in MakeDate (MakeDay yr m d) 0)"

text \<open>\<open>date.setUTCDate(dt)\<close>: the same month and time of day, the day of the month replaced.\<close>

definition setUTCDate :: "int \<Rightarrow> int \<Rightarrow> int" where
  "setUTCDate t dt =
     MakeDate (MakeDay (YearFromTime t) (MonthFromTime t) dt) (TimeWithinDay t)"

subsection \<open>Printing\<close>

definition digit :: "nat \<Rightarrow> char" where
  "digit n = ''0123456789'' ! n"

fun dec :: "nat \<Rightarrow> string" where
  "dec n = (if n < 10 then [digit n] else dec (n div 10) @ [digit (n mod 10)])"

definition pad :: "nat \<Rightarrow> nat \<Rightarrow> string" where
  "pad k n = replicate (k - length (dec n)) (CHR ''0'') @ dec n"

text \<open>
  \<open>toISOString\<close>: \<open>YYYY-MM-DDTHH:mm:ss.sssZ\<close>, and a year outside 0 to 9999 as a sign
  and six digits.
\<close>

definition iso_year :: "int \<Rightarrow> string" where
  "iso_year y =
     (if 0 \<le> y \<and> y \<le> 9999 then pad 4 (nat y)
      else (if y < 0 then ''-'' else ''+'') @ pad 6 (nat \<bar>y\<bar>))"

definition toISOString :: "int \<Rightarrow> string" where
  "toISOString t =
     (let ms = TimeWithinDay t in
      iso_year (YearFromTime t) @ ''-'' @ pad 2 (nat (MonthFromTime t + 1)) @ ''-''
        @ pad 2 (nat (DateFromTime t)) @ ''T'' @ pad 2 (nat (ms div 3600000)) @ '':''
        @ pad 2 (nat (ms div 60000 mod 60)) @ '':'' @ pad 2 (nat (ms div 1000 mod 60)) @ ''.''
        @ pad 3 (nat (ms mod 1000)) @ ''Z'')"

section \<open>Utilities of the API function\<close>

text \<open>
  An instant of the server's clock, as \<open>new Date()\<close> reads it: the milliseconds since the
  epoch, which a running server never sees negative.
\<close>

type_synonym instant = nat

text \<open>\<open>getWeekStartDate\<close>: the Monday of the week of \<open>d\<close> in UTC, as \<open>YYYY-MM-DD\<close>.\<close>

definition getWeekStartDate :: "instant \<Rightarrow> string" where
  "getWeekStartDate d =
     (let t = int d;
          date = Date_UTC (YearFromTime t) (MonthFromTime t) (DateFromTime t);
          day = WeekDay date;
          diffToMonday = (day + 6) mod 7;
          date = setUTCDate date (DateFromTime date - diffToMonday)
      in take 10 (toISOString date))"

section \<open>Requests, tokens and responses\<close>

text \<open>
  A signed token, as \<open>jwt.sign\<close> makes it and \<open>jwt.verify\<close> reads it: the payload and the
  secret the signature was computed with. \<open>jwt.verify\<close> returns the whole payload, so a payload
  may carry a role and a manager next to the id; the tokens of the login handler carry
  neither. Times in a token are seconds since the epoch.
\<close>

record jwt =
  jwt_id :: string
  jwt_role :: "string option"
  jwt_manager_id :: "string option"
  jwt_iat :: int
  jwt_exp :: int
  jwt_key :: string

text \<open>
  Values of request and response bodies. \<open>JUndefined\<close> is what reading an absent property
  gives; \<open>JTok\<close> is the string that serialises a token. \<open>JNum\<close> carries a finite number: what
  the parser makes of a literal beyond the range of the doubles, \<open>Infinity\<close>, is not among
  these values.
\<close>

datatype json =
    JUndefined
  | JNull
  | JBool bool
  | JNum real
  | JStr string
  | JArr "json list"
  | JObj "(string \<times> json) list"
  | JTok jwt

text \<open>A piece of the \<open>Authorization\<close> header between two spaces: some text, or a token.\<close>

datatype hword = Word string | Tok jwt

record request =
  authorization :: "hword list option"
  body :: "(string \<times> json) list"

text \<open>What a handler does with a request: it sends a status and a JSON body, or it throws.\<close>

datatype outcome = Reply nat json | Thrown string

record env =
  SUPABASE_URL :: "string option"
  SUPABASE_SERVICE_ROLE_KEY :: "string option"
  JWT_SECRET :: "string option"

text \<open>\<open>req.user\<close>: the decoded token, with the role and manager that hydration writes over it.\<close>

record user =
  u_id :: string
  u_role :: "string option"
  u_manager_id :: "string option"

definition prop_of :: "(string \<times> json) list \<Rightarrow> string \<Rightarrow> json" where
  "prop_of obj k = (case map_of obj k of None \<Rightarrow> JUndefined | Some v \<Rightarrow> v)"

text \<open>The values that \<open>!v\<close> lets through and \<open>v || w\<close> keeps.\<close>

fun truthy :: "json \<Rightarrow> bool" where
  "truthy JUndefined = False"
| "truthy JNull = False"
| "truthy (JBool b) = b"
| "truthy (JNum r) = (r \<noteq> 0)"
| "truthy (JStr s) = (s \<noteq> [])"
| "truthy (JArr _) = True"
| "truthy (JObj _) = True"
| "truthy (JTok _) = True"

definition message :: "string \<Rightarrow> json" where
  "message m = JObj [(''message'', JStr m)]"

definition message_detail :: "string \<Rightarrow> string \<Rightarrow> json" where
  "message_detail m d = JObj [(''message'', JStr m), (''detail'', JStr d)]"

section \<open>The store\<close>

text \<open>
  The three tables of the hosted database, with the constraints of \<open>schema.sql\<close>. The
  declarations of the tables are not part of the sources: the columns are those the API
  reads and writes, identifiers are text, a score is a number, \<open>created_at\<close> is the instant
  of the insert. A request to the store can fail for reasons of its own (the table or the
  network is not there): \<open>faults\<close> lists the kinds of request that fail, each with the
  message of its error. \<open>calls\<close> is the log of the requests made to the store.
\<close>

record employee =
  e_id :: string
  e_email :: string
  e_role :: string
  e_manager_id :: "string option"
  e_password_hash :: string

record evaluation =
  v_employee_id :: string
  v_week_start :: string
  v_overall_score :: real
  v_created_at :: instant

record warning_letter =
  w_employee_id :: string
  w_severity :: string
  w_status :: string

datatype table = Employees | Evaluations | Warnings

datatype verb = Select | Insert

datatype call =
    EmployeeById json
  | EmployeeByEmail string
  | EvaluationInsert json string real
  | RecentEvaluations json nat
  | WarningInsert json string string
  | ActiveWarnings

record store =
  employees :: "employee list"
  employee_weekly_evaluations :: "evaluation list"
  warning_letters :: "warning_letter list"
  faults :: "((table \<times> verb) \<times> string) list"
  calls :: "call list"

definition fault :: "store \<Rightarrow> table \<Rightarrow> verb \<Rightarrow> string option" where
  "fault s t v = map_of (faults s) (t, v)"

definition logged :: "store \<Rightarrow> call \<Rightarrow> store" where
  "logged s c = s\<lparr>calls := calls s @ [c]\<rparr>"

text \<open>An identifier column takes a JSON string and nothing else.\<close>

fun id_text :: "json \<Rightarrow> string option" where
  "id_text (JStr i) = Some i"
| "id_text _ = None"

text \<open>\<open>.single()\<close>: the row when the query has exactly one, an error otherwise.\<close>

fun single :: "'a list \<Rightarrow> 'a option \<times> string option" where
  "single [r] = (Some r, None)"
| "single _ = (None, Some ''JSON object requested, multiple (or no) rows returned'')"

text \<open>\<open>from("employees").select(...).eq("id", v).single()\<close>\<close>

definition employee_by_id :: "store \<Rightarrow> json \<Rightarrow> (employee option \<times> string option) \<times> store" where
  "employee_by_id s v =
     (let s' = logged s (EmployeeById v) in
      case fault s Employees Select of
        Some e \<Rightarrow> ((None, Some e), s')
      | None \<Rightarrow>
          (case id_text v of
             None \<Rightarrow> ((None, Some ''invalid input syntax for an identifier''), s')
           | Some i \<Rightarrow> (single (filter (\<lambda>r. e_id r = i) (employees s)), s')))"

text \<open>\<open>from("employees").select(...).eq("email", a).single()\<close>\<close>

definition employee_by_email :: "store \<Rightarrow> string \<Rightarrow> (employee option \<times> string option) \<times> store" where
  "employee_by_email s a =
     (let s' = logged s (EmployeeByEmail a) in
      case fault s Employees Select of
        Some e \<Rightarrow> ((None, Some e), s')
      | None \<Rightarrow> (single (filter (\<lambda>r. e_email r = a) (employees s)), s'))"

text \<open>
  \<open>from("employee_weekly_evaluations").insert([{employee_id, week_start, overall_score}])\<close>,
  under the unique index \<open>uniq_eval_employee_week\<close> on \<open>(employee_id, week_start)\<close>.
\<close>

definition insert_evaluation ::
  "store \<Rightarrow> instant \<Rightarrow> json \<Rightarrow> string \<Rightarrow> real \<Rightarrow> string option \<times> store" where
  "insert_evaluation s now v week score =
     (let s' = logged s (EvaluationInsert v week score) in
      case fault s Evaluations Insert of
        Some e \<Rightarrow> (Some e, s')
      | None \<Rightarrow>
          (case id_text v of
             None \<Rightarrow> (Some ''invalid input syntax for an identifier'', s')
           | Some i \<Rightarrow>
               if \<exists>r \<in> set (employee_weekly_evaluations s).
                    v_employee_id r = i \<and> v_week_start r = week
               then (Some ''duplicate key value violates unique constraint uniq_eval_employee_week'', s')
               else (None, s'\<lparr>employee_weekly_evaluations := employee_weekly_evaluations s @
                       [\<lparr>v_employee_id = i, v_week_start = week, v_overall_score = score,
                         v_created_at = now\<rparr>]\<rparr>)))"

text \<open>
  \<open>from("employee_weekly_evaluations").select("overall_score, created_at")
  .eq("employee_id", v).order("created_at", {ascending: false}).limit(n)\<close>: the data, or
  \<open>null\<close> (here \<open>None\<close>) when the request fails.
\<close>

definition recent_evaluations ::
  "store \<Rightarrow> json \<Rightarrow> nat \<Rightarrow> (real \<times> instant) list option \<times> store" where
  "recent_evaluations s v n =
     (let s' = logged s (RecentEvaluations v n) in
      case fault s Evaluations Select of
        Some e \<Rightarrow> (None, s')
      | None \<Rightarrow>
          (case id_text v of
             None \<Rightarrow> (None, s')
           | Some i \<Rightarrow>
               (Some (map (\<lambda>r. (v_overall_score r, v_created_at r))
                  (take n (rev (sort_key v_created_at
                     (filter (\<lambda>r. v_employee_id r = i) (employee_weekly_evaluations s)))))), s')))"

text \<open>
  \<open>from("warning_letters").insert([{employee_id, severity, status}])\<close>, under the check
  constraints on severity and status.
\<close>

definition insert_warning :: "store \<Rightarrow> json \<Rightarrow> string \<Rightarrow> string \<Rightarrow> string option \<times> store" where
  "insert_warning s v severity status =
     (let s' = logged s (WarningInsert v severity status) in
      case fault s Warnings Insert of
        Some e \<Rightarrow> (Some e, s')
      | None \<Rightarrow>
          (case id_text v of
             None \<Rightarrow> (Some ''invalid input syntax for an identifier'', s')
           | Some i \<Rightarrow>
               if severity \<notin> set [''low'', ''medium'', ''high'', ''critical'']
               then (Some ''violates check constraint warning_letters_severity_check'', s')
               else if status \<notin> set [''active'', ''resolved'', ''revoked'']
               then (Some ''violates check constraint warning_letters_status_check'', s')
               else (None, s'\<lparr>warning_letters := warning_letters s @
                       [\<lparr>w_employee_id = i, w_severity = severity, w_status = status\<rparr>]\<rparr>)))"

text \<open>\<open>from("warning_letters").select("employee_id, severity").eq("status", st)\<close>\<close>

definition warnings_by_status ::
  "store \<Rightarrow> string \<Rightarrow> ((string \<times> string) list option \<times> string option) \<times> store" where
  "warnings_by_status s st =
     (let s' = logged s ActiveWarnings in
      case fault s Warnings Select of
        Some e \<Rightarrow> ((None, Some e), s')
      | None \<Rightarrow>
          ((Some (map (\<lambda>r. (w_employee_id r, w_severity r))
              (filter (\<lambda>r. w_status r = st) (warning_letters s))), None), s'))"

section \<open>The API function\<close>

subsection \<open>Utilities\<close>

text \<open>
  \<open>String(v)\<close> is the identity on strings. What it prints for the other values is the
  runtime's business and a parameter here. Strings are bytes: \<open>trim\<close> drops the ASCII white
  space at both ends and \<open>toLowerCase\<close> folds the ASCII letters.
\<close>

definition js_String :: "(json \<Rightarrow> string) \<Rightarrow> json \<Rightarrow> string" where
  "js_String str v = (case v of JStr x \<Rightarrow> x | _ \<Rightarrow> str v)"

definition white_space :: "char \<Rightarrow> bool" where
  "white_space c = (c \<in> set [CHR 0x09, CHR 0x0A, CHR 0x0B, CHR 0x0C, CHR 0x0D, CHR '' ''])"

definition trim :: "string \<Rightarrow> string" where
  "trim x = rev (dropWhile white_space (rev (dropWhile white_space x)))"

definition lower_char :: "char \<Rightarrow> char" where
  "lower_char c =
     (case map_of (zip ''ABCDEFGHIJKLMNOPQRSTUVWXYZ'' ''abcdefghijklmnopqrstuvwxyz'') c of
        None \<Rightarrow> c
      | Some l \<Rightarrow> l)"

definition toLowerCase :: "string \<Rightarrow> string" where
  "toLowerCase x = map lower_char x"

definition normalizeEmail :: "(json \<Rightarrow> string) \<Rightarrow> json \<Rightarrow> string" where
  "normalizeEmail str email =
     toLowerCase (trim (js_String str (if truthy email then email else JStr [])))"

definition unset :: "string option \<Rightarrow> bool" where
  "unset v = (v = None \<or> v = Some [])"

text \<open>\<open>assertEnv\<close>: the response it sends when a variable is missing, \<open>None\<close> when it returns true.\<close>

definition assertEnv :: "env \<Rightarrow> outcome option" where
  "assertEnv e =
     (let missing =
        (if unset (SUPABASE_URL e) then [''SUPABASE_URL''] else []) @
        (if unset (SUPABASE_SERVICE_ROLE_KEY e) then [''SUPABASE_SERVICE_ROLE_KEY''] else []) @
        (if unset (JWT_SECRET e) then [''JWT_SECRET''] else [])
      in if missing \<noteq> []
         then Some (Reply 500 (JObj [(''message'', JStr ''Missing env vars''),
                                     (''missing'', JArr (map JStr missing))]))
         else None)"

subsection \<open>Tokens\<close>

text \<open>
  \<open>jwt.sign({id}, secret, {expiresIn: "1h"})\<close> and \<open>jwt.verify(token, secret)\<close>: the
  signature is good when it was made with the same secret, and the token has expired once
  the clock, in seconds, has reached \<open>exp\<close>.
\<close>

definition seconds :: "instant \<Rightarrow> int" where
  "seconds now = int now div 1000"

definition jwt_sign :: "string \<Rightarrow> string \<Rightarrow> instant \<Rightarrow> jwt" where
  "jwt_sign i secret now =
     \<lparr>jwt_id = i, jwt_role = None, jwt_manager_id = None, jwt_iat = seconds now,
      jwt_exp = seconds now + 3600, jwt_key = secret\<rparr>"

definition jwt_verify :: "jwt \<Rightarrow> string \<Rightarrow> instant \<Rightarrow> bool" where
  "jwt_verify t secret now = (jwt_key t = secret \<and> seconds now < jwt_exp t)"

subsection \<open>Middleware\<close>

text \<open>
  A middleware either sends a response (\<open>Inl\<close>), which ends the request, or calls \<open>next\<close>
  with the request's user (\<open>Inr\<close>).
\<close>

definition auth :: "env \<Rightarrow> instant \<Rightarrow> request \<Rightarrow> outcome + user" where
  "auth e now req =
     (case assertEnv e of
        Some r \<Rightarrow> Inl r
      | None \<Rightarrow>
          (case authorization req of
             None \<Rightarrow> Inl (Reply 401 (message ''Unauthorized''))
           | Some ws \<Rightarrow>
               (case ws of
                  _ # Word w # _ \<Rightarrow>
                    if w = [] then Inl (Reply 401 (message ''Unauthorized''))
                    else Inl (Reply 401 (message ''Invalid token''))
                | _ # Tok t # _ \<Rightarrow>
                    if jwt_verify t (the (JWT_SECRET e)) now
                    then Inr \<lparr>u_id = jwt_id t, u_role = jwt_role t,
                              u_manager_id = jwt_manager_id t\<rparr>
                    else Inl (Reply 401 (message ''Invalid token''))
                | _ \<Rightarrow> Inl (Reply 401 (message ''Unauthorized'')))))"

definition hydrateUser :: "store \<Rightarrow> user \<Rightarrow> (outcome + user) \<times> store" where
  "hydrateUser s u =
     (case employee_by_id s (JStr (u_id u)) of
        ((fresh, error), s') \<Rightarrow>
          (case (error, fresh) of
             (None, Some f) \<Rightarrow>
               (Inr (u\<lparr>u_role := Some (e_role f), u_manager_id := e_manager_id f\<rparr>), s')
           | _ \<Rightarrow> (Inl (Reply 401 (message ''Unauthorized'')), s')))"

definition requireRole :: "string list \<Rightarrow> user \<Rightarrow> outcome + user" where
  "requireRole roles u =
     (if u_role u \<notin> Some ` set roles then Inl (Reply 403 (message ''Forbidden'')) else Inr u)"

text \<open>The guards of a protected route, in their order.\<close>

definition protected ::
  "string list \<Rightarrow> env \<Rightarrow> store \<Rightarrow> instant \<Rightarrow> request \<Rightarrow> (outcome + user) \<times> store" where
  "protected roles e s now req =
     (case auth e now req of
        Inl r \<Rightarrow> (Inl r, s)
      | Inr u \<Rightarrow>
          (case hydrateUser s u of
             (Inl r, s') \<Rightarrow> (Inl r, s')
           | (Inr u', s') \<Rightarrow> (requireRole roles u', s')))"

subsection \<open>The relationship gate\<close>

definition assertCanEvaluate :: "store \<Rightarrow> user \<Rightarrow> json \<Rightarrow> bool \<times> store" where
  "assertCanEvaluate s u employeeId =
     (if u_role u = Some ''admin'' \<or> u_role u = Some ''hr'' then (True, s)
      else if u_role u = Some ''supervisor'' then
        (case employee_by_id s employeeId of
           ((emp, _), s') \<Rightarrow>
             ((case emp of None \<Rightarrow> False | Some r \<Rightarrow> e_manager_id r = Some (u_id u)), s'))
      else (False, s))"

subsection \<open>Routes\<close>

definition get_health :: outcome where
  "get_health = Reply 200 (JObj [(''ok'', JBool True)])"

text \<open>
  \<open>POST /api/login\<close>. \<open>compare\<close> is \<open>bcrypt.compare\<close> and \<open>str\<close> is \<open>String\<close>; the rate
  limiter in front of the handler is not modelled.
\<close>

definition post_login ::
  "(string \<Rightarrow> string \<Rightarrow> bool) \<Rightarrow> (json \<Rightarrow> string) \<Rightarrow> env \<Rightarrow> store \<Rightarrow> instant \<Rightarrow> request
     \<Rightarrow> outcome \<times> store" where
  "post_login compare str e s now req =
     (case assertEnv e of
        Some r \<Rightarrow> (r, s)
      | None \<Rightarrow>
          (let email = normalizeEmail str (prop_of (body req) ''email'');
               pw = prop_of (body req) ''password'';
               password = js_String str (if truthy pw then pw else JStr [])
           in case employee_by_email s email of
                ((None, _), s') \<Rightarrow> (Reply 400 (message ''Invalid credentials''), s')
              | ((Some u, _), s') \<Rightarrow>
                  if \<not> compare password (e_password_hash u)
                  then (Reply 400 (message ''Invalid credentials''), s')
                  else (Reply 200
                          (JObj [(''token'', JTok (jwt_sign (e_id u) (the (JWT_SECRET e)) now))]),
                        s')))"

text \<open>\<open>typeof v\<close>, and the number that a value of type number is.\<close>

fun typeof :: "json \<Rightarrow> string" where
  "typeof JUndefined = ''undefined''"
| "typeof JNull = ''object''"
| "typeof (JBool _) = ''boolean''"
| "typeof (JNum _) = ''number''"
| "typeof (JStr _) = ''string''"
| "typeof (JArr _) = ''object''"
| "typeof (JObj _) = ''object''"
| "typeof (JTok _) = ''string''"

fun number :: "json \<Rightarrow> real" where
  "number (JNum r) = r"
| "number _ = 0"

text \<open>\<open>last3.filter((e) => Number(e.overall_score) <= 2.5).length\<close>\<close>

definition low_count :: "(real \<times> instant) list \<Rightarrow> nat" where
  "low_count last3 = length (filter (\<lambda>e. fst e \<le> 2.5) last3)"

text \<open>
  The handler of \<open>POST /api/evaluations\<close>, behind its guards. When the read of the last
  three evaluations fails its data is \<open>null\<close>, which the default \<open>[]\<close> of the
  destructuring does not replace, and \<open>last3.filter\<close> throws. The result of the insert of
  the warning letter is not looked at.
\<close>

definition evaluations_handler :: "store \<Rightarrow> instant \<Rightarrow> user \<Rightarrow> request \<Rightarrow> outcome \<times> store" where
  "evaluations_handler s now u req =
     (let employee_id = prop_of (body req) ''employee_id'';
          overall_score = prop_of (body req) ''overall_score''
      in if \<not> truthy employee_id \<or> typeof overall_score \<noteq> ''number''
         then (Reply 400 (message ''Invalid payload''), s)
         else
           (case assertCanEvaluate s u employee_id of
              (False, s1) \<Rightarrow> (Reply 403 (message ''Forbidden''), s1)
            | (True, s1) \<Rightarrow>
                (let week_start = getWeekStartDate now in
                 case insert_evaluation s1 now employee_id week_start (number overall_score) of
                   (Some insErr, s2) \<Rightarrow>
                     (Reply 500 (message_detail ''Insert failed'' insErr), s2)
                 | (None, s2) \<Rightarrow>
                     (case recent_evaluations s2 employee_id 3 of
                        (None, s3) \<Rightarrow>
                          (Thrown ''TypeError: Cannot read properties of null'', s3)
                      | (Some last3, s3) \<Rightarrow>
                          (let lowCount = low_count last3 in
                           if lowCount \<ge> 2 then
                             (let severity = (if lowCount \<ge> 3 then ''critical'' else ''high'');
                                  s4 = snd (insert_warning s3 employee_id severity ''active'')
                              in (Reply 200 (JObj [(''success'', JBool True)]), s4))
                           else (Reply 200 (JObj [(''success'', JBool True)]), s3))))))"

definition post_evaluations :: "env \<Rightarrow> store \<Rightarrow> instant \<Rightarrow> request \<Rightarrow> outcome \<times> store" where
  "post_evaluations e s now req =
     (case protected [''supervisor'', ''hr'', ''admin''] e s now req of
        (Inl r, s') \<Rightarrow> (r, s')
      | (Inr u, s') \<Rightarrow> evaluations_handler s' now u req)"

definition risk_row :: "string \<times> string \<Rightarrow> json" where
  "risk_row r = JObj [(''employee_id'', JStr (fst r)), (''severity'', JStr (snd r))]"

definition get_department_risk :: "env \<Rightarrow> store \<Rightarrow> instant \<Rightarrow> request \<Rightarrow> outcome \<times> store" where
  "get_department_risk e s now req =
     (case protected [''hr'', ''admin''] e s now req of
        (Inl r, s') \<Rightarrow> (r, s')
      | (Inr u, s') \<Rightarrow>
          (case warnings_by_status s' ''active'' of
             ((_, Some error), s'') \<Rightarrow> (Reply 500 (message_detail ''Query failed'' error), s'')
           | ((None, None), s'') \<Rightarrow> (Reply 200 JNull, s'')
           | ((Some data, None), s'') \<Rightarrow> (Reply 200 (JArr (map risk_row data)), s'')))"

section \<open>The durable state, and a sample deployment\<close>

text \<open>What the store keeps: its tables and its faults, without the log of calls.\<close>

definition tables ::
  "store \<Rightarrow> employee list \<times> evaluation list \<times> warning_letter list \<times> ((table \<times> verb) \<times> string) list" where
  "tables s = (employees s, employee_weekly_evaluations s, warning_letters s, faults s)"

text \<open>The key of the unique index \<open>uniq_eval_employee_week\<close>.\<close>

definition week_key :: "evaluation \<Rightarrow> string \<times> string" where
  "week_key r = (v_employee_id r, v_week_start r)"

text \<open>
  Four employees: an administrator, a supervisor, and two operators, of whom the
  supervisor manages the first and the administrator the second.
\<close>

definition ada :: string where
  "ada = ''0a000000-0000-4000-8000-000000000001''"

definition sam :: string where
  "sam = ''0b000000-0000-4000-8000-000000000002''"

definition eve :: string where
  "eve = ''0c000000-0000-4000-8000-000000000003''"

definition oli :: string where
  "oli = ''0d000000-0000-4000-8000-000000000004''"

definition staff :: "employee list" where
  "staff =
     [\<lparr>e_id = ada, e_email = ''ada@example.com'', e_role = ''admin'', e_manager_id = None,
       e_password_hash = ''hash-of-ada''\<rparr>,
      \<lparr>e_id = sam, e_email = ''sam@example.com'', e_role = ''supervisor'',
       e_manager_id = Some ada, e_password_hash = ''hash-of-sam''\<rparr>,
      \<lparr>e_id = eve, e_email = ''eve@example.com'', e_role = ''operator'',
       e_manager_id = Some sam, e_password_hash = ''hash-of-eve''\<rparr>,
      \<lparr>e_id = oli, e_email = ''oli@example.com'', e_role = ''operator'',
       e_manager_id = Some ada, e_password_hash = ''hash-of-oli''\<rparr>]"

definition shop :: store where
  "shop = \<lparr>employees = staff, employee_weekly_evaluations = [], warning_letters = [],
           faults = [], calls = []\<rparr>"

definition config :: env where
  "config = \<lparr>SUPABASE_URL = Some ''https://db.example.com'',
             SUPABASE_SERVICE_ROLE_KEY = Some ''service-role-key'',
             JWT_SECRET = Some ''signing-secret''\<rparr>"

text \<open>Tuesday 2026-11-03, 10:00 UTC, and a token signed a minute before.\<close>

definition tuesday :: instant where
  "tuesday = 1793700000000"

definition token_of :: "string \<Rightarrow> jwt" where
  "token_of i = jwt_sign i ''signing-secret'' (tuesday - 60000)"

definition submission :: "jwt \<Rightarrow> json \<Rightarrow> json \<Rightarrow> request" where
  "submission t i x =
     \<lparr>authorization = Some [Word ''Bearer'', Tok t],
      body = [(''employee_id'', i), (''overall_score'', x)]\<rparr>"

text \<open>A password check for the sample: the hash of a password is \<open>hash-of-\<close> and the password.\<close>

definition sample_compare :: "string \<Rightarrow> string \<Rightarrow> bool" where
  "sample_compare password hash = (hash = ''hash-of-'' @ password)"

text \<open>The supervisor and the administrator as hydration leaves them in \<open>req.user\<close>.\<close>

definition sam_user :: user where
  "sam_user = \<lparr>u_id = sam, u_role = Some ''supervisor'', u_manager_id = Some ada\<rparr>"

definition ada_user :: user where
  "ada_user = \<lparr>u_id = ada, u_role = Some ''admin'', u_manager_id = None\<rparr>"

text \<open>
  The evaluations of the first operator in the two weeks before, both of score 2, submitted
  on the Tuesdays at 10:00; and the store after the two of them, and after the later one alone.
\<close>

definition two_weeks_ago :: evaluation where
  "two_weeks_ago = \<lparr>v_employee_id = eve, v_week_start = ''2026-10-19'', v_overall_score = 2,
                     v_created_at = 1792490400000\<rparr>"

definition last_week :: evaluation where
  "last_week = \<lparr>v_employee_id = eve, v_week_start = ''2026-10-26'', v_overall_score = 2,
                 v_created_at = 1793095200000\<rparr>"

definition shop_after_two :: store where
  "shop_after_two = shop\<lparr>employee_weekly_evaluations := [two_weeks_ago, last_week]\<rparr>"

definition shop_after_one :: store where
  "shop_after_one = shop\<lparr>employee_weekly_evaluations := [last_week]\<rparr>"

text \<open>An evaluation of the first operator of this week, submitted on Monday at 09:00.\<close>

definition this_week :: evaluation where
  "this_week = \<lparr>v_employee_id = eve, v_week_start = ''2026-11-02'', v_overall_score = 4,
                 v_created_at = 1793610000000\<rparr>"

definition shop_this_week :: store where
  "shop_this_week = shop\<lparr>employee_weekly_evaluations := [this_week]\<rparr>"

text \<open>A login request, and what \<open>String\<close> gives for a value that is not a string in the sample.\<close>

definition login_request :: "json \<Rightarrow> json \<Rightarrow> request" where
  "login_request a p = \<lparr>authorization = None, body = [(''email'', a), (''password'', p)]\<rparr>"

definition sample_str :: "json \<Rightarrow> string" where
  "sample_str v = ''[object Object]''"

text \<open>
  The staff after the first operator has moved from the supervisor to the administrator, and
  after the supervisor has been made an operator.
\<close>

definition shop_eve_moved :: store where
  "shop_eve_moved =
     shop\<lparr>employees := map (\<lambda>r. if e_id r = eve then r\<lparr>e_manager_id := Some ada\<rparr> else r) staff\<rparr>"

definition shop_sam_demoted :: store where
  "shop_sam_demoted =
     shop\<lparr>employees := map (\<lambda>r. if e_id r = sam then r\<lparr>e_role := ''operator''\<rparr> else r) staff\<rparr>"

text \<open>A token of the supervisor, signed with the secret, that claims the role of an administrator.\<close>

definition claiming_admin :: jwt where
  "claiming_admin = (token_of sam)\<lparr>jwt_role := Some ''admin'', jwt_manager_id := None\<rparr>"

text \<open>
  Stores that fail: one without the table of warning letters, after the operator's first
  low evaluation, and one that cannot be reached for the employees.
\<close>

definition shop_no_letters :: store where
  "shop_no_letters =
     shop_after_one\<lparr>faults := [((Warnings, Insert), ''relation warning_letters does not exist'')]\<rparr>"

definition shop_unreachable :: store where
  "shop_unreachable = shop\<lparr>faults := [((Employees, Select), ''connection refused'')]\<rparr>"

text \<open>
  A store that refuses to write evaluations and to read warning letters, and the request
  for the risk report.
\<close>

definition shop_denied :: store where
  "shop_denied =
     shop\<lparr>faults := [((Evaluations, Insert), ''permission denied for table employee_weekly_evaluations''),
                      ((Warnings, Select), ''permission denied for table warning_letters'')]\<rparr>"

definition risk_request :: "jwt \<Rightarrow> request" where
  "risk_request t = \<lparr>authorization = Some [Word ''Bearer'', Tok t], body = []\<rparr>"

section \<open>The week start\<close>

lemma year_search_lower: "lo \<le> y \<Longrightarrow> lo \<le> year_search lo y d"
  by (induction lo y d rule: year_search.induct) (subst year_search.simps, simp)

lemma YearFromDay_lower:
  assumes "0 \<le> d"
  shows "1969 \<le> YearFromDay d"
proof -
  let ?lo = "1969 + min (d div 365) (d div 366)"
  let ?hi = "1971 + max (d div 365) (d div 366)"
  have a: "0 \<le> d div 365" "0 \<le> d div 366"
    using assms by (simp_all add: pos_imp_zdiv_nonneg_iff)
  then have "?lo \<le> ?hi" by simp
  then have "?lo \<le> year_search ?lo ?hi d" by (rule year_search_lower)
  moreover have "1969 \<le> ?lo" using a by simp
  ultimately show ?thesis unfolding YearFromDay_def by linarith
qed

lemma MonthFromTime_range: "0 \<le> MonthFromTime t \<and> MonthFromTime t \<le> 11"
  by (simp add: MonthFromTime_def Let_def)

lemma DateFromTime_month_start:
  "DateFromTime t = DayWithinYear t - month_start (MonthFromTime t) (InLeapYear t) + 1"
  by (simp add: DateFromTime_def month_start_def Let_def)

lemma MakeDay_shift: "MakeDay y m (d - k) = MakeDay y m d - k"
  by (simp add: MakeDay_def Let_def)

text \<open>The year, month and day of the month of an instant make its day number again.\<close>

lemma MakeDay_civil: "MakeDay (YearFromTime t) (MonthFromTime t) (DateFromTime t) = Day t"
proof -
  have m: "MonthFromTime t div 12 = 0" "MonthFromTime t mod 12 = MonthFromTime t"
    using MonthFromTime_range [of t] by simp_all
  show ?thesis
    by (simp add: MakeDay_def Let_def m DateFromTime_month_start InLeapYear_def DayWithinYear_def)
qed

lemma Day_MakeDate: "Day (MakeDate d 0) = d"
  by (simp add: Day_def MakeDate_def msPerDay_def)

lemma TimeWithinDay_MakeDate: "TimeWithinDay (MakeDate d 0) = 0"
  by (simp add: MakeDate_def TimeWithinDay_def msPerDay_def)

lemma Date_UTC_civil:
  assumes "0 \<le> t"
  shows "Date_UTC (YearFromTime t) (MonthFromTime t) (DateFromTime t) = MakeDate (Day t) 0"
proof -
  have "0 \<le> Day t"
    using assms by (simp add: Day_def msPerDay_def pos_imp_zdiv_nonneg_iff)
  then have "1969 \<le> YearFromTime t"
    unfolding YearFromTime_def by (rule YearFromDay_lower)
  then show ?thesis by (simp add: Date_UTC_def Let_def MakeDay_civil)
qed

lemma setUTCDate_midnight:
  "setUTCDate (MakeDate d 0) (DateFromTime (MakeDate d 0) - k) = MakeDate (d - k) 0"
  by (simp add: setUTCDate_def MakeDay_shift MakeDay_civil Day_MakeDate TimeWithinDay_MakeDate)

lemma getWeekStartDate_Monday:
  "getWeekStartDate d =
     take 10 (toISOString (MakeDate (Day (int d) - (Day (int d) + 3) mod 7) 0))"
proof -
  have "((Day (int d) + 4) mod 7 + 6) mod 7 = (Day (int d) + 3 + 7) mod 7"
    by (simp add: mod_simps)
  also have "\<dots> = (Day (int d) + 3) mod 7" by (rule mod_add_self2)
  finally show ?thesis
    by (simp add: getWeekStartDate_def Let_def Date_UTC_civil setUTCDate_midnight WeekDay_def
        Day_MakeDate)
qed

lemma week_span_Monday:
  assumes "WeekDay (MakeDate m 0) = 1" "MakeDate m 0 \<le> t" "t < MakeDate (m + 7) 0"
  shows "Day t - (Day t + 3) mod 7 = m"
proof -
  have "(m + 4) mod 7 = 1" using assms(1) by (simp add: WeekDay_def Day_MakeDate)
  moreover have "m \<le> Day t"
    using assms(2) unfolding Day_def MakeDate_def msPerDay_def by linarith
  moreover have "Day t < m + 7"
    using assms(3) by (simp add: Day_def MakeDate_def msPerDay_def algebra_simps)
  ultimately show ?thesis by presburger
qed

lemma iso_2026_11_02: "take 10 (toISOString (MakeDate 20759 0)) = ''2026-11-02''"
  by (simp add: toISOString_def MakeDate_def msPerDay_def TimeWithinDay_def YearFromTime_def
      YearFromDay_def Day_def year_search.simps DayFromYear_def MonthFromTime_def DateFromTime_def
      DayWithinYear_def InLeapYear_def leap_year_def iso_year_def pad_def digit_def Let_def)

text \<open>
  Claim C5. Let day \<open>m\<close> be a Monday (week day 1), so that the week from Monday to Sunday is
  the instants from \<open>MakeDate m 0\<close> up to, and not including, \<open>MakeDate (m + 7) 0\<close>. For any
  two instants \<open>t1\<close> and \<open>t2\<close> of that week, whatever their week day and time of day,
  \<open>getWeekStartDate\<close> returns the same string, and the string is the first ten characters
  of the ISO form of that Monday's midnight in UTC, that is its \<open>YYYY-MM-DD\<close>.
\<close>

theorem getWeekStartDate_same_week:
  assumes "WeekDay (MakeDate m 0) = 1"
    and "MakeDate m 0 \<le> int t1" and "int t1 < MakeDate (m + 7) 0"
    and "MakeDate m 0 \<le> int t2" and "int t2 < MakeDate (m + 7) 0"
  shows "getWeekStartDate t1 = getWeekStartDate t2
    \<and> getWeekStartDate t1 = take 10 (toISOString (MakeDate m 0))"
  using week_span_Monday [OF assms(1,2,3)] week_span_Monday [OF assms(1,4,5)]
  by (simp add: getWeekStartDate_Monday)

text \<open>
  The week of Monday 2026-11-02 (day 20759): Tuesday 10:00 and the last millisecond of
  Sunday both give \<open>2026-11-02\<close>.
\<close>

theorem getWeekStartDate_same_week_witness:
  "WeekDay (MakeDate 20759 0) = 1
   \<and> MakeDate 20759 0 \<le> int 1793700000000 \<and> int 1793700000000 < MakeDate (20759 + 7) 0
   \<and> MakeDate 20759 0 \<le> int 1794182399999 \<and> int 1794182399999 < MakeDate (20759 + 7) 0
   \<and> getWeekStartDate 1793700000000 = getWeekStartDate 1794182399999
   \<and> getWeekStartDate 1793700000000 = ''2026-11-02''"
proof -
  have h: "WeekDay (MakeDate 20759 0) = 1"
    "MakeDate 20759 0 \<le> int 1793700000000" "int 1793700000000 < MakeDate (20759 + 7) 0"
    "MakeDate 20759 0 \<le> int 1794182399999" "int 1794182399999 < MakeDate (20759 + 7) 0"
    by (simp_all add: WeekDay_def MakeDate_def Day_def msPerDay_def)
  from h getWeekStartDate_same_week [OF h] iso_2026_11_02 show ?thesis by metis
qed

section \<open>The year of a day\<close>

lemma div_bounds:
  assumes "0 < (k::int)"
  shows "k * (x div k) \<le> x" and "x - (k - 1) \<le> k * (x div k)"
proof -
  have "x = k * (x div k) + x mod k" by simp
  moreover have "0 \<le> x mod k" "x mod k < k" using assms by simp_all
  ultimately show "k * (x div k) \<le> x" and "x - (k - 1) \<le> k * (x div k)" by linarith+
qed

text \<open>The leap days up to a year, within a day of a 97/400 of the years.\<close>

lemma leap_days_upper:
  fixes q a b c :: int
  assumes "4 * a \<le> q" "q - 31 \<le> 100 * b" "400 * c \<le> q + 368"
  shows "400 * (a - b + c) \<le> 97 * q + 492"
proof -
  have "400 * a \<le> 100 * q" using assms(1) by simp
  moreover have "- (400 * b) \<le> - (4 * q) + 124" using assms(2) by simp
  ultimately show ?thesis using assms(3) by (simp add: algebra_simps)
qed

lemma leap_days_lower:
  fixes q a b c :: int
  assumes "q \<le> 4 * a" "100 * b \<le> q + 71" "q - 28 \<le> 400 * c"
  shows "97 * q - 312 \<le> 400 * (a - b + c)"
proof -
  have "100 * q \<le> 400 * a" using assms(1) by simp
  moreover have "- (4 * q) - 284 \<le> - (400 * b)" using assms(2) by simp
  ultimately show ?thesis using assms(3) by (simp add: algebra_simps)
qed

lemma DayFromYear_upper:
  "0 \<le> q \<Longrightarrow> DayFromYear (1969 + q) \<le> 366 * q"
  "q < 0 \<Longrightarrow> DayFromYear (1969 + q) \<le> 365 * q"
proof -
  let ?l = "q div 4 - (q + 68) div 100 + (q + 368) div 400"
  have d: "DayFromYear (1969 + q) = 365 * (q - 1) + ?l"
    by (simp add: DayFromYear_def add.commute)
  have l: "400 * ?l \<le> 97 * q + 492"
    using leap_days_upper [OF div_bounds(1) [of 4 q, simplified]
        div_bounds(2) [of 100 "q + 68", simplified] div_bounds(1) [of 400 "q + 368", simplified]] .
  show "0 \<le> q \<Longrightarrow> DayFromYear (1969 + q) \<le> 366 * q"
  proof -
    assume "0 \<le> q"
    with l have "400 * ?l \<le> 400 * (q + 365)" by simp
    then have "?l \<le> q + 365" by simp
    then show ?thesis unfolding d by simp
  qed
  show "q < 0 \<Longrightarrow> DayFromYear (1969 + q) \<le> 365 * q"
  proof -
    assume "q < 0"
    with l have "400 * ?l \<le> 400 * 365" by simp
    then have "?l \<le> 365" by simp
    then show ?thesis unfolding d by simp
  qed
qed

lemma DayFromYear_lower:
  "0 \<le> q \<Longrightarrow> 365 * (q + 1) \<le> DayFromYear (1972 + q)"
  "q < 0 \<Longrightarrow> 366 * (q + 1) \<le> DayFromYear (1972 + q)"
proof -
  let ?l = "(q + 3) div 4 - (q + 71) div 100 + (q + 371) div 400"
  have d: "DayFromYear (1972 + q) = 365 * (q + 2) + ?l"
    by (simp add: DayFromYear_def add.commute)
  have l: "97 * q - 312 \<le> 400 * ?l"
    using leap_days_lower [OF div_bounds(2) [of 4 "q + 3", simplified]
        div_bounds(1) [of 100 "q + 71", simplified] div_bounds(2) [of 400 "q + 371", simplified]] .
  show "0 \<le> q \<Longrightarrow> 365 * (q + 1) \<le> DayFromYear (1972 + q)"
  proof -
    assume "0 \<le> q"
    with l have "400 * (- 365) \<le> 400 * ?l" by simp
    then have "- 365 \<le> ?l" by simp
    then show ?thesis unfolding d by simp
  qed
  show "q < 0 \<Longrightarrow> 366 * (q + 1) \<le> DayFromYear (1972 + q)"
  proof -
    assume "q < 0"
    with l have "400 * (q - 364) \<le> 400 * ?l" by simp
    then have "q - 364 \<le> ?l" by simp
    then show ?thesis unfolding d by simp
  qed
qed

lemma year_search_correct:
  assumes "lo \<le> y" and "DayFromYear lo \<le> d" and "d < DayFromYear (y + 1)"
  shows "DayFromYear (year_search lo y d) \<le> d \<and> d < DayFromYear (year_search lo y d + 1)"
  using assms
proof (induction lo y d rule: year_search.induct)
  case (1 lo y d)
  show ?case
  proof (cases "y \<le> lo \<or> DayFromYear y \<le> d")
    case True
    then have "DayFromYear y \<le> d" using "1.prems"(1,2) by auto
    then show ?thesis using True "1.prems"(3) by (subst (1 2) year_search.simps) simp
  next
    case False
    then have "DayFromYear (year_search lo (y - 1) d) \<le> d
        \<and> d < DayFromYear (year_search lo (y - 1) d + 1)"
      using "1.IH" "1.prems"(2) by simp
    then show ?thesis using False by (subst (1 2) year_search.simps) simp
  qed
qed

text \<open>
  The year that the search finds begins on the day or before it, and the year after it
  begins after the day.
\<close>

lemma YearFromDay_correct:
  "DayFromYear (YearFromDay d) \<le> d \<and> d < DayFromYear (YearFromDay d + 1)"
proof -
  let ?lo = "min (d div 365) (d div 366)"
  let ?hi = "max (d div 365) (d div 366)"
  have b: "365 * (d div 365) \<le> d" "d < 365 * (d div 365 + 1)"
    "366 * (d div 366) \<le> d" "d < 366 * (d div 366 + 1)"
    using div_bounds [of 365 d] div_bounds [of 366 d] by simp_all
  have low: "DayFromYear (1969 + ?lo) \<le> d"
  proof (cases "0 \<le> ?lo")
    case True
    then have "DayFromYear (1969 + ?lo) \<le> 366 * ?lo" by (rule DayFromYear_upper(1))
    also have "\<dots> \<le> 366 * (d div 366)" by simp
    finally show ?thesis using b(3) by simp
  next
    case False
    then have "?lo < 0" by (simp only: not_le)
    then have "DayFromYear (1969 + ?lo) \<le> 365 * ?lo" by (rule DayFromYear_upper(2))
    also have "\<dots> \<le> 365 * (d div 365)" by simp
    finally show ?thesis using b(1) by simp
  qed
  have high: "d < DayFromYear (1971 + ?hi + 1)"
  proof (cases "0 \<le> ?hi")
    case True
    have "d < 365 * (d div 365 + 1)" by (rule b(2))
    also have "\<dots> \<le> 365 * (?hi + 1)" by simp
    also have "\<dots> \<le> DayFromYear (1972 + ?hi)" using True by (rule DayFromYear_lower(1))
    finally show ?thesis by (simp add: add.commute add.left_commute)
  next
    case False
    have "d < 366 * (d div 366 + 1)" by (rule b(4))
    also have "\<dots> \<le> 366 * (?hi + 1)" by simp
    also have "\<dots> \<le> DayFromYear (1972 + ?hi)"
    proof -
      from False have "?hi < 0" by (simp only: not_le)
      then show ?thesis by (rule DayFromYear_lower(2))
    qed
    finally show ?thesis by (simp add: add.commute add.left_commute)
  qed
  have "1969 + ?lo \<le> 1971 + ?hi" by simp
  from year_search_correct [OF this low high] show ?thesis by (simp add: YearFromDay_def)
qed

section \<open>The sample week\<close>

lemma week_tuesday: "getWeekStartDate tuesday = ''2026-11-02''"
proof -
  have "Day (int tuesday) - (Day (int tuesday) + 3) mod 7 = 20759"
    by (simp add: tuesday_def Day_def msPerDay_def)
  then show ?thesis by (simp add: getWeekStartDate_Monday iso_2026_11_02)
qed

section \<open>The store operations\<close>

lemma logged_simps [simp]:
  "employees (logged s c) = employees s"
  "employee_weekly_evaluations (logged s c) = employee_weekly_evaluations s"
  "warning_letters (logged s c) = warning_letters s"
  "faults (logged s c) = faults s"
  "calls (logged s c) = calls s @ [c]"
  by (simp_all add: logged_def)

lemma fault_logged [simp]: "fault (logged s c) t v = fault s t v"
  by (simp add: fault_def)

lemma tables_logged [simp]: "tables (logged s c) = tables s"
  by (simp add: tables_def)

lemma tables_eq:
  "tables s' = tables s \<longleftrightarrow>
     employees s' = employees s
     \<and> employee_weekly_evaluations s' = employee_weekly_evaluations s
     \<and> warning_letters s' = warning_letters s \<and> faults s' = faults s"
  by (auto simp: tables_def)

lemma tables_fault: "tables s' = tables s \<Longrightarrow> fault s' t v = fault s t v"
  by (simp add: tables_eq fault_def)

lemma employee_by_id_snd [simp]: "snd (employee_by_id s v) = logged s (EmployeeById v)"
  by (simp add: employee_by_id_def Let_def split: option.splits)

lemma employee_by_email_snd [simp]: "snd (employee_by_email s a) = logged s (EmployeeByEmail a)"
  by (simp add: employee_by_email_def Let_def split: option.splits)

lemma single_Some: "fst (single rows) = Some r \<longleftrightarrow> rows = [r]"
  by (cases rows rule: single.cases) auto

lemma single_error: "snd (single rows) = None \<longleftrightarrow> fst (single rows) \<noteq> None"
  by (cases rows rule: single.cases) auto

text \<open>A lookup by id gives a row exactly when the store answers and has one row of that id.\<close>

lemma employee_by_id_Some:
  "fst (fst (employee_by_id s v)) = Some r \<longleftrightarrow>
     fault s Employees Select = None
     \<and> (\<exists>i. v = JStr i \<and> filter (\<lambda>r. e_id r = i) (employees s) = [r])"
  by (cases v) (auto simp: employee_by_id_def Let_def single_Some split: option.splits)

lemma employee_by_id_error:
  "snd (fst (employee_by_id s v)) = None \<longleftrightarrow> fst (fst (employee_by_id s v)) \<noteq> None"
  by (cases v) (auto simp: employee_by_id_def Let_def single_error split: option.splits)

lemma employee_by_id_pair:
  "employee_by_id s v = (fst (employee_by_id s v), logged s (EmployeeById v))"
  by (metis employee_by_id_snd prod.collapse)

lemma hydrateUser_snd [simp]: "snd (hydrateUser s u) = logged s (EmployeeById (JStr (u_id u)))"
  by (subst hydrateUser_def, subst employee_by_id_pair)
     (simp split: prod.splits option.splits)

lemma hydrateUser_Inr:
  "fst (hydrateUser s u) = Inr u' \<longleftrightarrow>
     (\<exists>f. fst (fst (employee_by_id s (JStr (u_id u)))) = Some f
        \<and> u' = u\<lparr>u_role := Some (e_role f), u_manager_id := e_manager_id f\<rparr>)"
proof (cases "fst (employee_by_id s (JStr (u_id u)))")
  case (Pair fresh error)
  with employee_by_id_error [of s "JStr (u_id u)"] have "error = None \<longleftrightarrow> fresh \<noteq> None"
    by simp
  with Pair show ?thesis
    by (subst hydrateUser_def, subst employee_by_id_pair)
       (auto split: prod.splits option.splits)
qed

lemma assertCanEvaluate_snd:
  "snd (assertCanEvaluate s u v) =
     (if u_role u = Some ''supervisor'' then logged s (EmployeeById v) else s)"
  by (subst assertCanEvaluate_def, subst employee_by_id_pair)
     (simp split: prod.splits)

lemma assertCanEvaluate_tables [simp]: "tables (snd (assertCanEvaluate s u v)) = tables s"
  by (simp add: assertCanEvaluate_snd)

lemma protected_tables [simp]: "tables (snd (protected roles e s now req)) = tables s"
proof (cases "auth e now req")
  case (Inl r)
  then show ?thesis by (simp add: protected_def)
next
  case (Inr u)
  have "tables (snd (hydrateUser s u)) = tables s" by simp
  with Inr show ?thesis
    by (cases "hydrateUser s u") (auto simp: protected_def split: sum.splits)
qed


section \<open>Paths through the handler\<close>

lemma handler_invalid:
  assumes "\<not> truthy (prop_of (body req) ''employee_id'')
           \<or> typeof (prop_of (body req) ''overall_score'') \<noteq> ''number''"
  shows "evaluations_handler s now u req = (Reply 400 (message ''Invalid payload''), s)"
  using assms by (auto simp: evaluations_handler_def Let_def)

lemma handler_denied:
  assumes "truthy (prop_of (body req) ''employee_id'')"
    and "typeof (prop_of (body req) ''overall_score'') = ''number''"
    and "\<not> fst (assertCanEvaluate s u (prop_of (body req) ''employee_id''))"
  shows "evaluations_handler s now u req =
           (Reply 403 (message ''Forbidden''),
            snd (assertCanEvaluate s u (prop_of (body req) ''employee_id'')))"
  using assms
  by (cases "assertCanEvaluate s u (prop_of (body req) ''employee_id'')")
     (simp add: evaluations_handler_def Let_def)

lemma handler_allowed:
  assumes "truthy (prop_of (body req) ''employee_id'')"
    and "typeof (prop_of (body req) ''overall_score'') = ''number''"
    and "fst (assertCanEvaluate s u (prop_of (body req) ''employee_id''))"
  shows "evaluations_handler s now u req =
    (let employee_id = prop_of (body req) ''employee_id'' in
     case insert_evaluation (snd (assertCanEvaluate s u employee_id)) now employee_id
            (getWeekStartDate now) (number (prop_of (body req) ''overall_score'')) of
       (Some insErr, s2) \<Rightarrow> (Reply 500 (message_detail ''Insert failed'' insErr), s2)
     | (None, s2) \<Rightarrow>
         (case recent_evaluations s2 employee_id 3 of
            (None, s3) \<Rightarrow> (Thrown ''TypeError: Cannot read properties of null'', s3)
          | (Some last3, s3) \<Rightarrow>
              (let lowCount = low_count last3 in
               if lowCount \<ge> 2 then
                 (let severity = (if lowCount \<ge> 3 then ''critical'' else ''high'');
                      s4 = snd (insert_warning s3 employee_id severity ''active'')
                  in (Reply 200 (JObj [(''success'', JBool True)]), s4))
               else (Reply 200 (JObj [(''success'', JBool True)]), s3))))"
  using assms
  by (cases "assertCanEvaluate s u (prop_of (body req) ''employee_id'')")
     (simp add: evaluations_handler_def Let_def)

text \<open>The gate, as a condition on the caller and the store.\<close>

lemma assertCanEvaluate_fst:
  "fst (assertCanEvaluate s u v) \<longleftrightarrow>
     u_role u = Some ''admin'' \<or> u_role u = Some ''hr''
     \<or> (u_role u = Some ''supervisor''
         \<and> (\<exists>r. fst (fst (employee_by_id s v)) = Some r \<and> e_manager_id r = Some (u_id u)))"
  by (subst assertCanEvaluate_def, subst employee_by_id_pair)
     (auto split: prod.splits option.splits)

section \<open>The relationship gate\<close>

lemma staff_ids [simp]:
  "ada \<noteq> sam" "ada \<noteq> eve" "ada \<noteq> oli" "sam \<noteq> ada" "sam \<noteq> eve" "sam \<noteq> oli"
  "eve \<noteq> ada" "eve \<noteq> sam" "eve \<noteq> oli" "oli \<noteq> ada" "oli \<noteq> sam" "oli \<noteq> eve"
  "ada \<noteq> []" "sam \<noteq> []" "eve \<noteq> []" "oli \<noteq> []"
  by (simp_all add: ada_def sam_def eve_def oli_def)

lemmas sample_defs = shop_def staff_def config_def tuesday_def
  token_of_def submission_def sam_user_def ada_user_def
  two_weeks_ago_def last_week_def shop_after_two_def shop_after_one_def
  this_week_def shop_this_week_def
  login_request_def shop_eve_moved_def shop_sam_demoted_def claiming_admin_def
  shop_no_letters_def shop_unreachable_def shop_denied_def risk_request_def

text \<open>
  Claim C1. The relationship gate lets a request pass exactly when the caller's role is admin
  or hr, or it is supervisor and the lookup of the target employee gives a row whose manager
  is the caller. For a supervisor the lookup is a call to the store made by the gate itself.
  The submission handler answers a payload that the gate refuses with 403 Forbidden.
\<close>

theorem canEvaluate_gate:
  "(fst (assertCanEvaluate s u v) \<longleftrightarrow>
      u_role u = Some ''admin'' \<or> u_role u = Some ''hr''
      \<or> (u_role u = Some ''supervisor''
          \<and> (\<exists>r. fst (fst (employee_by_id s v)) = Some r \<and> e_manager_id r = Some (u_id u))))
   \<and> (u_role u = Some ''supervisor'' \<longrightarrow>
        calls (snd (assertCanEvaluate s u v)) = calls s @ [EmployeeById v])
   \<and> (truthy (prop_of (body req) ''employee_id'')
        \<and> typeof (prop_of (body req) ''overall_score'') = ''number''
        \<and> \<not> fst (assertCanEvaluate s u (prop_of (body req) ''employee_id''))
      \<longrightarrow> fst (evaluations_handler s now u req) = Reply 403 (message ''Forbidden'')
          \<and> tables (snd (evaluations_handler s now u req)) = tables s)"
  by (simp add: assertCanEvaluate_fst assertCanEvaluate_snd handler_denied)

theorem canEvaluate_gate_witness:
  "u_role sam_user = Some ''supervisor''
   \<and> truthy (prop_of (body (submission (token_of sam) (JStr oli) (JNum 4))) ''employee_id'')
   \<and> typeof (prop_of (body (submission (token_of sam) (JStr oli) (JNum 4))) ''overall_score'')
       = ''number''
   \<and> \<not> fst (assertCanEvaluate shop sam_user (JStr oli))
   \<and> fst (assertCanEvaluate shop sam_user (JStr eve))
   \<and> fst (evaluations_handler shop tuesday sam_user (submission (token_of sam) (JStr oli) (JNum 4)))
       = Reply 403 (message ''Forbidden'')
   \<and> calls (snd (assertCanEvaluate shop sam_user (JStr oli))) = [EmployeeById (JStr oli)]"
  using canEvaluate_gate [of shop sam_user "JStr oli" "submission (token_of sam) (JStr oli) (JNum 4)" tuesday]
    canEvaluate_gate [of shop sam_user "JStr eve"]
  by (simp add: sample_defs prop_of_def employee_by_id_def fault_def Let_def)

section \<open>Writes and reads of the evaluations\<close>

lemma insert_evaluation_new:
  assumes "fault s Evaluations Insert = None"
    and "(i, w) \<notin> week_key ` set (employee_weekly_evaluations s)"
  shows "insert_evaluation s now (JStr i) w x =
    (None, (logged s (EvaluationInsert (JStr i) w x))
       \<lparr>employee_weekly_evaluations := employee_weekly_evaluations s @
          [\<lparr>v_employee_id = i, v_week_start = w, v_overall_score = x, v_created_at = now\<rparr>]\<rparr>)"
proof -
  have "\<not> (\<exists>r \<in> set (employee_weekly_evaluations s). v_employee_id r = i \<and> v_week_start r = w)"
    using assms(2) by (force simp: week_key_def)
  then show ?thesis using assms(1) by (simp add: insert_evaluation_def Let_def)
qed

lemma insert_evaluation_duplicate:
  assumes "fault s Evaluations Insert = None"
    and "(i, w) \<in> week_key ` set (employee_weekly_evaluations s)"
  shows "insert_evaluation s now (JStr i) w x =
    (Some ''duplicate key value violates unique constraint uniq_eval_employee_week'',
     logged s (EvaluationInsert (JStr i) w x))"
proof -
  have "\<exists>r \<in> set (employee_weekly_evaluations s). v_employee_id r = i \<and> v_week_start r = w"
    using assms(2) by (auto simp: week_key_def)
  then show ?thesis using assms(1) by (simp add: insert_evaluation_def Let_def)
qed

text \<open>An insert that reports an error has written nothing.\<close>

lemma insert_evaluation_error:
  assumes "fst (insert_evaluation s now v w x) = Some err"
  shows "snd (insert_evaluation s now v w x) = logged s (EvaluationInsert v w x)"
  using assms
  by (auto simp: insert_evaluation_def Let_def split: option.splits if_splits)

text \<open>Whatever an insert does, it adds at most one row, and the row has the given week and score.\<close>

lemma insert_evaluation_rows:
  "employee_weekly_evaluations (snd (insert_evaluation s now v w x)) =
     employee_weekly_evaluations s
   \<or> (\<exists>i. v = JStr i
        \<and> (i, w) \<notin> week_key ` set (employee_weekly_evaluations s)
        \<and> employee_weekly_evaluations (snd (insert_evaluation s now v w x)) =
            employee_weekly_evaluations s @
            [\<lparr>v_employee_id = i, v_week_start = w, v_overall_score = x, v_created_at = now\<rparr>])"
  by (cases v) (auto simp: insert_evaluation_def Let_def week_key_def split: option.splits)

lemma insert_evaluation_other [simp]:
  "employees (snd (insert_evaluation s now v w x)) = employees s"
  "warning_letters (snd (insert_evaluation s now v w x)) = warning_letters s"
  "faults (snd (insert_evaluation s now v w x)) = faults s"
  by (auto simp: insert_evaluation_def Let_def split: option.splits)

lemma recent_evaluations_ok:
  assumes "fault s Evaluations Select = None"
  shows "recent_evaluations s (JStr i) n =
    (Some (map (\<lambda>r. (v_overall_score r, v_created_at r))
       (take n (rev (sort_key v_created_at
          (filter (\<lambda>r. v_employee_id r = i) (employee_weekly_evaluations s)))))),
     logged s (RecentEvaluations (JStr i) n))"
  using assms by (simp add: recent_evaluations_def Let_def)

lemma recent_evaluations_snd [simp]:
  "snd (recent_evaluations s v n) = logged s (RecentEvaluations v n)"
  by (simp add: recent_evaluations_def Let_def split: option.splits)

lemma insert_warning_ok:
  assumes "fault s Warnings Insert = None"
    and "severity = ''critical'' \<or> severity = ''high''"
  shows "insert_warning s (JStr i) severity ''active'' =
    (None, (logged s (WarningInsert (JStr i) severity ''active''))
       \<lparr>warning_letters := warning_letters s @
          [\<lparr>w_employee_id = i, w_severity = severity, w_status = ''active''\<rparr>]\<rparr>)"
  using assms by (auto simp: insert_warning_def Let_def)

lemma insert_warning_fault:
  assumes "fault s Warnings Insert = Some err"
  shows "insert_warning s v severity status = (Some err, logged s (WarningInsert v severity status))"
  using assms by (simp add: insert_warning_def Let_def)

lemma insert_warning_other [simp]:
  "employees (snd (insert_warning s v sev st)) = employees s"
  "employee_weekly_evaluations (snd (insert_warning s v sev st)) = employee_weekly_evaluations s"
  "faults (snd (insert_warning s v sev st)) = faults s"
  by (auto simp: insert_warning_def Let_def split: option.splits)

lemma low_count_rows:
  "low_count (map (\<lambda>r. (v_overall_score r, v_created_at r)) rows) =
   length (filter (\<lambda>r. v_overall_score r \<le> 2.5) rows)"
  by (simp add: low_count_def filter_map comp_def)

section \<open>A submission that passes the gate\<close>

text \<open>The newest row comes first when every other row is older.\<close>

lemma insort_key_last:
  "f x \<le> f r \<Longrightarrow> insort_key f x (ys @ [r]) = insort_key f x ys @ [r]"
  by (induction ys) auto

lemma sort_key_snoc:
  assumes "\<forall>x \<in> set xs. f x \<le> f r"
  shows "sort_key f (xs @ [r]) = sort_key f xs @ [r]"
  using assms
proof (induction xs)
  case Nil
  then show ?case by simp
next
  case (Cons x xs)
  then have "sort_key f (xs @ [r]) = sort_key f xs @ [r]" by simp
  moreover have "f x \<le> f r" using Cons.prems by simp
  ultimately show ?case by (simp add: sort_key_def insort_key_last)
qed

lemma newest_first:
  assumes "\<forall>x \<in> set xs. f x \<le> f r" and "0 < n"
  shows "take n (rev (sort_key f (xs @ [r]))) = r # take (n - 1) (rev (sort_key f xs))"
  using assms by (cases n) (simp_all add: sort_key_snoc)

lemma handler_read:
  assumes "truthy (prop_of (body req) ''employee_id'')"
    and "typeof (prop_of (body req) ''overall_score'') = ''number''"
    and "fst (assertCanEvaluate s u (prop_of (body req) ''employee_id''))"
    and "insert_evaluation (snd (assertCanEvaluate s u (prop_of (body req) ''employee_id''))) now
           (prop_of (body req) ''employee_id'') (getWeekStartDate now)
           (number (prop_of (body req) ''overall_score'')) = (None, s2)"
    and "recent_evaluations s2 (prop_of (body req) ''employee_id'') 3 = (Some last3, s3)"
  shows "evaluations_handler s now u req =
           (Reply 200 (JObj [(''success'', JBool True)]),
            if low_count last3 \<ge> 2
            then snd (insert_warning s3 (prop_of (body req) ''employee_id'')
                   (if low_count last3 \<ge> 3 then ''critical'' else ''high'') ''active'')
            else s3)"
  using assms(1,2,3) by (simp add: handler_allowed assms(4,5) Let_def)

lemma handler_passed:
  assumes id: "prop_of (body req) ''employee_id'' = JStr i" "i \<noteq> []"
    and score: "prop_of (body req) ''overall_score'' = JNum x"
    and allowed: "fst (assertCanEvaluate s u (JStr i))"
    and ins: "fault s Evaluations Insert = None"
    and new: "(i, getWeekStartDate now) \<notin> week_key ` set (employee_weekly_evaluations s)"
    and sel: "fault s Evaluations Select = None"
  defines "row \<equiv> \<lparr>v_employee_id = i, v_week_start = getWeekStartDate now,
                    v_overall_score = x, v_created_at = now\<rparr>"
  defines "last3 \<equiv> take 3 (rev (sort_key v_created_at
                    (filter (\<lambda>r. v_employee_id r = i) (employee_weekly_evaluations s @ [row]))))"
  defines "lowCount \<equiv> length (filter (\<lambda>r. v_overall_score r \<le> 2.5) last3)"
  defines "s3 \<equiv> logged ((logged (snd (assertCanEvaluate s u (JStr i)))
                    (EvaluationInsert (JStr i) (getWeekStartDate now) x))
                   \<lparr>employee_weekly_evaluations := employee_weekly_evaluations s @ [row]\<rparr>)
                  (RecentEvaluations (JStr i) 3)"
  shows "evaluations_handler s now u req =
           (Reply 200 (JObj [(''success'', JBool True)]),
            if lowCount \<ge> 2
            then snd (insert_warning s3 (JStr i)
                   (if lowCount \<ge> 3 then ''critical'' else ''high'') ''active'')
            else s3)"
proof -
  let ?s1 = "snd (assertCanEvaluate s u (JStr i))"
  let ?s2 = "(logged ?s1 (EvaluationInsert (JStr i) (getWeekStartDate now) x))
         \<lparr>employee_weekly_evaluations := employee_weekly_evaluations s @ [row]\<rparr>"
  let ?l3 = "map (\<lambda>r. (v_overall_score r, v_created_at r)) last3"
  have t: "tables ?s1 = tables s" by simp
  have rows: "employee_weekly_evaluations ?s1 = employee_weekly_evaluations s"
    using t [unfolded tables_eq] by simp
  have f1: "fault ?s1 Evaluations Insert = None" using tables_fault [OF t] ins by simp
  have f2: "fault ?s1 Evaluations Select = None" using tables_fault [OF t] sel by simp
  have a: "insert_evaluation ?s1 now (JStr i) (getWeekStartDate now) x = (None, ?s2)"
  proof -
    have "(i, getWeekStartDate now) \<notin> week_key ` set (employee_weekly_evaluations ?s1)"
      using new rows by simp
    from insert_evaluation_new [OF f1 this, unfolded rows] show ?thesis
      unfolding row_def .
  qed
  have f3: "fault ?s2 Evaluations Select = None"
    using f2 by (simp add: fault_def)
  have b: "recent_evaluations ?s2 (JStr i) 3 = (Some ?l3, s3)"
    unfolding recent_evaluations_ok [OF f3] last3_def s3_def by simp
  have c: "low_count ?l3 = lowCount"
    unfolding lowCount_def by (rule low_count_rows)
  have "truthy (prop_of (body req) ''employee_id'')"
    "typeof (prop_of (body req) ''overall_score'') = ''number''"
    "fst (assertCanEvaluate s u (prop_of (body req) ''employee_id''))"
    "insert_evaluation (snd (assertCanEvaluate s u (prop_of (body req) ''employee_id''))) now
           (prop_of (body req) ''employee_id'') (getWeekStartDate now)
           (number (prop_of (body req) ''overall_score'')) = (None, ?s2)"
    "recent_evaluations ?s2 (prop_of (body req) ''employee_id'') 3 = (Some ?l3, s3)"
    using id score allowed a b by simp_all
  from handler_read [OF this] show ?thesis
    unfolding c id(1) .
qed


lemma handler_passed_rows:
  assumes id: "prop_of (body req) ''employee_id'' = JStr i" "i \<noteq> []"
    and score: "prop_of (body req) ''overall_score'' = JNum x"
    and allowed: "fst (assertCanEvaluate s u (JStr i))"
    and ins: "fault s Evaluations Insert = None"
    and new: "(i, getWeekStartDate now) \<notin> week_key ` set (employee_weekly_evaluations s)"
    and sel: "fault s Evaluations Select = None"
  shows "fst (evaluations_handler s now u req) = Reply 200 (JObj [(''success'', JBool True)])"
    and "employee_weekly_evaluations (snd (evaluations_handler s now u req)) =
           employee_weekly_evaluations s @
           [\<lparr>v_employee_id = i, v_week_start = getWeekStartDate now,
             v_overall_score = x, v_created_at = now\<rparr>]"
    and "employees (snd (evaluations_handler s now u req)) = employees s"
    and "faults (snd (evaluations_handler s now u req)) = faults s"
  using tables_eq [THEN iffD1, OF assertCanEvaluate_tables [of s u "JStr i"]]
  by (simp_all add: handler_passed [OF assms])

lemma handler_passed_warnings:
  assumes id: "prop_of (body req) ''employee_id'' = JStr i" "i \<noteq> []"
    and score: "prop_of (body req) ''overall_score'' = JNum x"
    and allowed: "fst (assertCanEvaluate s u (JStr i))"
    and ins: "fault s Evaluations Insert = None"
    and new: "(i, getWeekStartDate now) \<notin> week_key ` set (employee_weekly_evaluations s)"
    and sel: "fault s Evaluations Select = None"
    and warn: "fault s Warnings Insert = None"
  defines "row \<equiv> \<lparr>v_employee_id = i, v_week_start = getWeekStartDate now,
                    v_overall_score = x, v_created_at = now\<rparr>"
  defines "last3 \<equiv> take 3 (rev (sort_key v_created_at
                    (filter (\<lambda>r. v_employee_id r = i) (employee_weekly_evaluations s @ [row]))))"
  defines "lowCount \<equiv> length (filter (\<lambda>r. v_overall_score r \<le> 2.5) last3)"
  shows "warning_letters (snd (evaluations_handler s now u req)) =
           warning_letters s @
           (if lowCount \<ge> 3
            then [\<lparr>w_employee_id = i, w_severity = ''critical'', w_status = ''active''\<rparr>]
            else if lowCount \<ge> 2
            then [\<lparr>w_employee_id = i, w_severity = ''high'', w_status = ''active''\<rparr>]
            else [])"
proof -
  let ?s1 = "snd (assertCanEvaluate s u (JStr i))"
  let ?s3 = "logged ((logged ?s1 (EvaluationInsert (JStr i) (getWeekStartDate now) x))
                   \<lparr>employee_weekly_evaluations := employee_weekly_evaluations s @ [row]\<rparr>)
                  (RecentEvaluations (JStr i) 3)"
  have t: "tables ?s1 = tables s" by simp
  have w: "warning_letters ?s1 = warning_letters s"
    using t [unfolded tables_eq] by simp
  have "fault ?s1 Warnings Insert = None" using tables_fault [OF t] warn by simp
  then have f: "fault ?s3 Warnings Insert = None" by (simp add: fault_def)
  have w3: "warning_letters ?s3 = warning_letters s" using w by simp
  have h: "evaluations_handler s now u req =
           (Reply 200 (JObj [(''success'', JBool True)]),
            if lowCount \<ge> 2
            then snd (insert_warning ?s3 (JStr i)
                   (if lowCount \<ge> 3 then ''critical'' else ''high'') ''active'')
            else ?s3)"
    unfolding lowCount_def last3_def row_def
    by (rule handler_passed [OF id score allowed ins new sel])
  show ?thesis
  proof (cases "lowCount \<ge> 2")
    case False
    then show ?thesis using w3 by (simp add: h)
  next
    case True
    show ?thesis
    proof (cases "lowCount \<ge> 3")
      case True
      with \<open>lowCount \<ge> 2\<close> show ?thesis
        using insert_warning_ok [OF f, of "''critical''" i] w3 by (simp add: h)
    next
      case False
      with \<open>lowCount \<ge> 2\<close> show ?thesis
        using insert_warning_ok [OF f, of "''high''" i] w3 by (simp add: h)
    qed
  qed
qed

section \<open>The escalation rule\<close>

lemma post_evaluations_passed:
  assumes "protected [''supervisor'', ''hr'', ''admin''] e s now req = (Inr u, s1)"
  shows "post_evaluations e s now req = evaluations_handler s1 now u req"
  using assms by (simp add: post_evaluations_def)

lemma protected_passed_tables:
  assumes "protected roles e s now req = (r, s1)"
  shows "tables s1 = tables s"
  using protected_tables [of roles e s now req] assms by simp

lemma post_passed:
  assumes guards: "protected [''supervisor'', ''hr'', ''admin''] e s now req = (Inr u, s1)"
    and id: "prop_of (body req) ''employee_id'' = JStr i" "i \<noteq> []"
    and score: "prop_of (body req) ''overall_score'' = JNum x"
    and allowed: "fst (assertCanEvaluate s1 u (JStr i))"
    and new: "(i, getWeekStartDate now) \<notin> week_key ` set (employee_weekly_evaluations s)"
    and answers: "fault s Evaluations Insert = None" "fault s Evaluations Select = None"
  defines "row \<equiv> \<lparr>v_employee_id = i, v_week_start = getWeekStartDate now,
                    v_overall_score = x, v_created_at = now\<rparr>"
  defines "s' \<equiv> snd (post_evaluations e s now req)"
  shows "employee_weekly_evaluations s' = employee_weekly_evaluations s @ [row]"
    and "fst (post_evaluations e s now req) = Reply 200 (JObj [(''success'', JBool True)])"
    and "employees s' = employees s" and "faults s' = faults s"
proof -
  have t: "tables s1 = tables s" using guards by (rule protected_passed_tables)
  note eq = t [unfolded tables_eq]
  have f: "fault s1 Evaluations Insert = None" "fault s1 Evaluations Select = None"
    using tables_fault [OF t] answers by simp_all
  have n: "(i, getWeekStartDate now) \<notin> week_key ` set (employee_weekly_evaluations s1)"
    using new eq by simp
  have p: "post_evaluations e s now req = evaluations_handler s1 now u req"
    using guards by (rule post_evaluations_passed)
  show "employee_weekly_evaluations s' = employee_weekly_evaluations s @ [row]"
    unfolding s'_def p row_def
    using handler_passed_rows(2) [OF id score allowed f(1) n f(2)] eq by simp
  show "fst (post_evaluations e s now req) = Reply 200 (JObj [(''success'', JBool True)])"
    unfolding p by (rule handler_passed_rows(1) [OF id score allowed f(1) n f(2)])
  show "employees s' = employees s" and "faults s' = faults s"
    unfolding s'_def p
    using handler_passed_rows(3,4) [OF id score allowed f(1) n f(2)] eq by simp_all
qed

lemma post_passed_warnings:
  assumes guards: "protected [''supervisor'', ''hr'', ''admin''] e s now req = (Inr u, s1)"
    and id: "prop_of (body req) ''employee_id'' = JStr i" "i \<noteq> []"
    and score: "prop_of (body req) ''overall_score'' = JNum x"
    and allowed: "fst (assertCanEvaluate s1 u (JStr i))"
    and new: "(i, getWeekStartDate now) \<notin> week_key ` set (employee_weekly_evaluations s)"
    and answers: "fault s Evaluations Insert = None" "fault s Evaluations Select = None"
      "fault s Warnings Insert = None"
  defines "s' \<equiv> snd (post_evaluations e s now req)"
  defines "last3 \<equiv> take 3 (rev (sort_key v_created_at
                    (filter (\<lambda>r. v_employee_id r = i) (employee_weekly_evaluations s'))))"
  defines "lowCount \<equiv> length (filter (\<lambda>r. v_overall_score r \<le> 2.5) last3)"
  shows "warning_letters s' = warning_letters s @
         (if lowCount \<ge> 3
          then [\<lparr>w_employee_id = i, w_severity = ''critical'', w_status = ''active''\<rparr>]
          else if lowCount \<ge> 2
          then [\<lparr>w_employee_id = i, w_severity = ''high'', w_status = ''active''\<rparr>]
          else [])"
proof -
  let ?row = "\<lparr>v_employee_id = i, v_week_start = getWeekStartDate now,
                    v_overall_score = x, v_created_at = now\<rparr>"
  have t: "tables s1 = tables s" using guards by (rule protected_passed_tables)
  note eq = t [unfolded tables_eq]
  have f: "fault s1 Evaluations Insert = None" "fault s1 Evaluations Select = None"
    "fault s1 Warnings Insert = None"
    using tables_fault [OF t] answers by simp_all
  have n: "(i, getWeekStartDate now) \<notin> week_key ` set (employee_weekly_evaluations s1)"
    using new eq by simp
  have p: "post_evaluations e s now req = evaluations_handler s1 now u req"
    using guards by (rule post_evaluations_passed)
  have rows: "employee_weekly_evaluations s' = employee_weekly_evaluations s1 @ [?row]"
    unfolding s'_def
    using post_passed(1) [OF guards id score allowed new answers(1,2)] eq by simp
  have "warning_letters s' = warning_letters s1 @
         (if lowCount \<ge> 3
          then [\<lparr>w_employee_id = i, w_severity = ''critical'', w_status = ''active''\<rparr>]
          else if lowCount \<ge> 2
          then [\<lparr>w_employee_id = i, w_severity = ''high'', w_status = ''active''\<rparr>]
          else [])"
    unfolding lowCount_def last3_def rows unfolding s'_def p
    by (rule handler_passed_warnings [OF id score allowed f(1) n f(2) f(3)])
  then show ?thesis using eq by simp
qed

text \<open>
  Claim C2. Let a submission for employee \<open>i\<close> with score \<open>x\<close> pass the guards and the gate,
  let the store answer, and let no evaluation of \<open>i\<close> for this week exist, so that the insert
  succeeds and adds \<open>row\<close>. The handler then reads the three most recent evaluations of \<open>i\<close>
  in descending order of creation (\<open>last3\<close>); when the earlier evaluations of \<open>i\<close> were
  created before now, the new row is the first of them. With \<open>lowCount\<close> the number of rows
  of \<open>last3\<close> whose score is at most 2.5, the handler adds one warning letter of severity
  critical and status active when \<open>lowCount\<close> is at least 3, one of severity high and status
  active when it is 2, and none otherwise.
\<close>

theorem escalation_rule:
  assumes guards: "protected [''supervisor'', ''hr'', ''admin''] e s now req = (Inr u, s1)"
    and id: "prop_of (body req) ''employee_id'' = JStr i" "i \<noteq> []"
    and score: "prop_of (body req) ''overall_score'' = JNum x"
    and allowed: "fst (assertCanEvaluate s1 u (JStr i))"
    and new: "(i, getWeekStartDate now) \<notin> week_key ` set (employee_weekly_evaluations s)"
    and answers: "fault s Evaluations Insert = None" "fault s Evaluations Select = None"
      "fault s Warnings Insert = None"
    and older: "\<forall>r \<in> set (employee_weekly_evaluations s).
                  v_employee_id r = i \<longrightarrow> v_created_at r < now"
  defines "row \<equiv> \<lparr>v_employee_id = i, v_week_start = getWeekStartDate now,
                    v_overall_score = x, v_created_at = now\<rparr>"
  defines "s' \<equiv> snd (post_evaluations e s now req)"
  defines "last3 \<equiv> take 3 (rev (sort_key v_created_at
                    (filter (\<lambda>r. v_employee_id r = i) (employee_weekly_evaluations s'))))"
  defines "lowCount \<equiv> length (filter (\<lambda>r. v_overall_score r \<le> 2.5) last3)"
  shows "employee_weekly_evaluations s' = employee_weekly_evaluations s @ [row]
    \<and> last3 = row # take 2 (rev (sort_key v_created_at
                    (filter (\<lambda>r. v_employee_id r = i) (employee_weekly_evaluations s))))
    \<and> warning_letters s' = warning_letters s @
         (if lowCount \<ge> 3
          then [\<lparr>w_employee_id = i, w_severity = ''critical'', w_status = ''active''\<rparr>]
          else if lowCount \<ge> 2
          then [\<lparr>w_employee_id = i, w_severity = ''high'', w_status = ''active''\<rparr>]
          else [])
    \<and> fst (post_evaluations e s now req) = Reply 200 (JObj [(''success'', JBool True)])"
proof -
  have rows: "employee_weekly_evaluations s' = employee_weekly_evaluations s @ [row]"
    unfolding s'_def row_def
    by (rule post_passed(1) [OF guards id score allowed new answers(1,2)])
  have "filter (\<lambda>r. v_employee_id r = i) (employee_weekly_evaluations s') =
        filter (\<lambda>r. v_employee_id r = i) (employee_weekly_evaluations s) @ [row]"
    by (simp add: rows row_def)
  moreover have "\<forall>r \<in> set (filter (\<lambda>r. v_employee_id r = i) (employee_weekly_evaluations s)).
                   v_created_at r \<le> v_created_at row"
    using older by (auto simp: row_def intro: less_imp_le)
  ultimately have first: "last3 = row # take 2 (rev (sort_key v_created_at
                    (filter (\<lambda>r. v_employee_id r = i) (employee_weekly_evaluations s))))"
    unfolding last3_def by (simp add: newest_first)
  have warnings: "warning_letters s' = warning_letters s @
         (if lowCount \<ge> 3
          then [\<lparr>w_employee_id = i, w_severity = ''critical'', w_status = ''active''\<rparr>]
          else if lowCount \<ge> 2
          then [\<lparr>w_employee_id = i, w_severity = ''high'', w_status = ''active''\<rparr>]
          else [])"
    unfolding lowCount_def last3_def s'_def
    by (rule post_passed_warnings [OF guards id score allowed new answers])
  have "fst (post_evaluations e s now req) = Reply 200 (JObj [(''success'', JBool True)])"
    by (rule post_passed(2) [OF guards id score allowed new answers(1,2)])
  with rows first warnings show ?thesis by simp
qed

lemmas guard_defs = protected_def auth_def assertEnv_def unset_def jwt_sign_def jwt_verify_def
  seconds_def hydrateUser_def employee_by_id_def fault_def requireRole_def Let_def

lemma sam_passes_two:
  "protected [''supervisor'', ''hr'', ''admin''] config shop_after_two tuesday
     (submission (token_of sam) (JStr eve) (JNum 4)) =
   (Inr sam_user, logged shop_after_two (EmployeeById (JStr sam)))"
  by (simp add: guard_defs sample_defs)

theorem escalation_rule_witness:
  "protected [''supervisor'', ''hr'', ''admin''] config shop_after_two tuesday
     (submission (token_of sam) (JStr eve) (JNum 4)) =
   (Inr sam_user, logged shop_after_two (EmployeeById (JStr sam)))
   \<and> prop_of (body (submission (token_of sam) (JStr eve) (JNum 4))) ''employee_id'' = JStr eve
   \<and> eve \<noteq> []
   \<and> prop_of (body (submission (token_of sam) (JStr eve) (JNum 4))) ''overall_score'' = JNum 4
   \<and> fst (assertCanEvaluate (logged shop_after_two (EmployeeById (JStr sam))) sam_user (JStr eve))
   \<and> (eve, getWeekStartDate tuesday)
         \<notin> week_key ` set (employee_weekly_evaluations shop_after_two)
   \<and> fault shop_after_two Evaluations Insert = None
   \<and> fault shop_after_two Evaluations Select = None
   \<and> fault shop_after_two Warnings Insert = None
   \<and> employee_weekly_evaluations shop_after_two = [two_weeks_ago, last_week]
   \<and> v_created_at two_weeks_ago < tuesday \<and> v_created_at last_week < tuesday
   \<and> employee_weekly_evaluations (snd (post_evaluations config shop_after_two tuesday
         (submission (token_of sam) (JStr eve) (JNum 4)))) =
       [two_weeks_ago, last_week,
        \<lparr>v_employee_id = eve, v_week_start = ''2026-11-02'', v_overall_score = 4,
          v_created_at = tuesday\<rparr>]
   \<and> warning_letters (snd (post_evaluations config shop_after_two tuesday
         (submission (token_of sam) (JStr eve) (JNum 4)))) =
       [\<lparr>w_employee_id = eve, w_severity = ''high'', w_status = ''active''\<rparr>]"
proof -
  have h: "prop_of (body (submission (token_of sam) (JStr eve) (JNum 4))) ''employee_id'' = JStr eve"
    "eve \<noteq> []"
    "prop_of (body (submission (token_of sam) (JStr eve) (JNum 4))) ''overall_score'' = JNum 4"
    "fst (assertCanEvaluate (logged shop_after_two (EmployeeById (JStr sam))) sam_user (JStr eve))"
    "(eve, getWeekStartDate tuesday) \<notin> week_key ` set (employee_weekly_evaluations shop_after_two)"
    "fault shop_after_two Evaluations Insert = None"
    "fault shop_after_two Evaluations Select = None"
    "fault shop_after_two Warnings Insert = None"
    "\<forall>r \<in> set (employee_weekly_evaluations shop_after_two).
         v_employee_id r = eve \<longrightarrow> v_created_at r < tuesday"
    by (simp_all add: assertCanEvaluate_fst employee_by_id_def week_tuesday week_key_def
        week_tuesday [unfolded tuesday_def] prop_of_def fault_def sample_defs Let_def)
  have o: "employee_weekly_evaluations shop_after_two = [two_weeks_ago, last_week]"
    "v_created_at two_weeks_ago < tuesday" "v_created_at last_week < tuesday"
    by (simp_all add: sample_defs)
  from escalation_rule [OF sam_passes_two h] sam_passes_two h o show ?thesis
    by (simp add: week_tuesday week_tuesday [unfolded tuesday_def] sample_defs)
qed

section \<open>Escalation on two evaluations\<close>

lemma recent_all:
  assumes "length xs \<le> n"
  shows "length (take n (rev (sort_key f xs))) = length xs"
    and "set (take n (rev (sort_key f xs))) = set xs"
  using assms by simp_all

text \<open>
  Claim C10. Let a submission for employee \<open>i\<close> with a score of at most 2.5 pass the guards
  and the gate, let the store answer, and let the employee have exactly one evaluation so
  far, of another week and of a score of at most 2.5. Then the employee has two evaluations
  after the insert, the read of the last three gives these two rows and no third, both count
  as low, and the handler adds one warning letter of severity high and status active.
\<close>

theorem escalation_on_two:
  assumes guards: "protected [''supervisor'', ''hr'', ''admin''] e s now req = (Inr u, s1)"
    and id: "prop_of (body req) ''employee_id'' = JStr i" "i \<noteq> []"
    and score: "prop_of (body req) ''overall_score'' = JNum x" "x \<le> 2.5"
    and allowed: "fst (assertCanEvaluate s1 u (JStr i))"
    and one: "filter (\<lambda>r. v_employee_id r = i) (employee_weekly_evaluations s) = [r0]"
      "v_overall_score r0 \<le> 2.5" "v_week_start r0 \<noteq> getWeekStartDate now"
    and answers: "fault s Evaluations Insert = None" "fault s Evaluations Select = None"
      "fault s Warnings Insert = None"
  defines "row \<equiv> \<lparr>v_employee_id = i, v_week_start = getWeekStartDate now,
                    v_overall_score = x, v_created_at = now\<rparr>"
  defines "s' \<equiv> snd (post_evaluations e s now req)"
  defines "last3 \<equiv> take 3 (rev (sort_key v_created_at
                    (filter (\<lambda>r. v_employee_id r = i) (employee_weekly_evaluations s'))))"
  shows "filter (\<lambda>r. v_employee_id r = i) (employee_weekly_evaluations s') = [r0, row]
    \<and> length last3 = 2 \<and> set last3 = {r0, row}
    \<and> length (filter (\<lambda>r. v_overall_score r \<le> 2.5) last3) = 2
    \<and> warning_letters s' = warning_letters s @
         [\<lparr>w_employee_id = i, w_severity = ''high'', w_status = ''active''\<rparr>]"
proof -
  have new: "(i, getWeekStartDate now) \<notin> week_key ` set (employee_weekly_evaluations s)"
  proof
    assume "(i, getWeekStartDate now) \<in> week_key ` set (employee_weekly_evaluations s)"
    then obtain r where r: "r \<in> set (employee_weekly_evaluations s)" "v_employee_id r = i"
      "v_week_start r = getWeekStartDate now"
      by (auto simp: week_key_def)
    then have "r \<in> set (filter (\<lambda>r. v_employee_id r = i) (employee_weekly_evaluations s))"
      by simp
    then have "r = r0" unfolding one(1) by simp
    with r(3) one(3) show False by simp
  qed
  have rows: "employee_weekly_evaluations s' = employee_weekly_evaluations s @ [row]"
    unfolding s'_def row_def
    by (rule post_passed(1) [OF guards id score(1) allowed new answers(1,2)])
  have both: "filter (\<lambda>r. v_employee_id r = i) (employee_weekly_evaluations s') = [r0, row]"
    by (simp add: rows one(1)) (simp add: row_def)
  have len: "length last3 = 2"
    unfolding last3_def both by (subst recent_all(1)) simp_all
  have elems: "set last3 = {r0, row}"
    unfolding last3_def both by (subst recent_all(2)) simp_all
  have "\<forall>r \<in> set last3. v_overall_score r \<le> 2.5"
    unfolding elems using one(2) score(2) by (simp add: row_def)
  then have "filter (\<lambda>r. v_overall_score r \<le> 2.5) last3 = last3"
    by (simp only: filter_id_conv)
  then have low: "length (filter (\<lambda>r. v_overall_score r \<le> 2.5) last3) = 2"
    using len by simp
  have "warning_letters s' = warning_letters s @
         [\<lparr>w_employee_id = i, w_severity = ''high'', w_status = ''active''\<rparr>]"
    using post_passed_warnings [OF guards id score(1) allowed new answers]
      low [unfolded last3_def s'_def]
    unfolding s'_def by simp
  with both len elems low show ?thesis by simp
qed


lemma sam_passes_one:
  "protected [''supervisor'', ''hr'', ''admin''] config shop_after_one tuesday
     (submission (token_of sam) (JStr eve) (JNum 2)) =
   (Inr sam_user, logged shop_after_one (EmployeeById (JStr sam)))"
  by (simp add: guard_defs sample_defs)

text \<open>
  The supervisor gives his operator a 2 in the week after her first evaluation, which was
  a 2 as well: the two rows make a warning letter of severity high.
\<close>

theorem escalation_on_two_witness:
  "protected [''supervisor'', ''hr'', ''admin''] config shop_after_one tuesday
     (submission (token_of sam) (JStr eve) (JNum 2)) =
   (Inr sam_user, logged shop_after_one (EmployeeById (JStr sam)))
   \<and> prop_of (body (submission (token_of sam) (JStr eve) (JNum 2))) ''employee_id'' = JStr eve
   \<and> eve \<noteq> []
   \<and> prop_of (body (submission (token_of sam) (JStr eve) (JNum 2))) ''overall_score'' = JNum 2
   \<and> (2::real) \<le> 2.5
   \<and> fst (assertCanEvaluate (logged shop_after_one (EmployeeById (JStr sam))) sam_user (JStr eve))
   \<and> filter (\<lambda>r. v_employee_id r = eve) (employee_weekly_evaluations shop_after_one) = [last_week]
   \<and> v_overall_score last_week \<le> 2.5
   \<and> v_week_start last_week \<noteq> getWeekStartDate tuesday
   \<and> fault shop_after_one Evaluations Insert = None
   \<and> fault shop_after_one Evaluations Select = None
   \<and> fault shop_after_one Warnings Insert = None
   \<and> filter (\<lambda>r. v_employee_id r = eve)
        (employee_weekly_evaluations (snd (post_evaluations config shop_after_one tuesday
           (submission (token_of sam) (JStr eve) (JNum 2))))) =
       [last_week,
        \<lparr>v_employee_id = eve, v_week_start = ''2026-11-02'', v_overall_score = 2,
          v_created_at = tuesday\<rparr>]
   \<and> warning_letters (snd (post_evaluations config shop_after_one tuesday
         (submission (token_of sam) (JStr eve) (JNum 2)))) =
       [\<lparr>w_employee_id = eve, w_severity = ''high'', w_status = ''active''\<rparr>]"
proof -
  have h: "prop_of (body (submission (token_of sam) (JStr eve) (JNum 2))) ''employee_id'' = JStr eve"
    "eve \<noteq> []"
    "prop_of (body (submission (token_of sam) (JStr eve) (JNum 2))) ''overall_score'' = JNum 2"
    "(2::real) \<le> 2.5"
    "fst (assertCanEvaluate (logged shop_after_one (EmployeeById (JStr sam))) sam_user (JStr eve))"
    "filter (\<lambda>r. v_employee_id r = eve) (employee_weekly_evaluations shop_after_one) = [last_week]"
    "v_overall_score last_week \<le> 2.5"
    "v_week_start last_week \<noteq> getWeekStartDate tuesday"
    "fault shop_after_one Evaluations Insert = None"
    "fault shop_after_one Evaluations Select = None"
    "fault shop_after_one Warnings Insert = None"
    by (simp_all add: assertCanEvaluate_fst employee_by_id_def week_tuesday
        week_tuesday [unfolded tuesday_def] prop_of_def fault_def sample_defs Let_def)
  from escalation_on_two [OF sam_passes_one h] sam_passes_one h show ?thesis
    by (simp add: week_tuesday week_tuesday [unfolded tuesday_def] sample_defs)
qed

section \<open>One evaluation a week\<close>

lemma handler_insert_failed:
  assumes "truthy (prop_of (body req) ''employee_id'')"
    and "typeof (prop_of (body req) ''overall_score'') = ''number''"
    and "fst (assertCanEvaluate s u (prop_of (body req) ''employee_id''))"
    and "insert_evaluation (snd (assertCanEvaluate s u (prop_of (body req) ''employee_id''))) now
           (prop_of (body req) ''employee_id'') (getWeekStartDate now)
           (number (prop_of (body req) ''overall_score'')) = (Some err, s2)"
  shows "evaluations_handler s now u req = (Reply 500 (message_detail ''Insert failed'' err), s2)"
  using assms(1,2,3) by (simp add: handler_allowed assms(4) Let_def)

lemma handler_read_failed:
  assumes "truthy (prop_of (body req) ''employee_id'')"
    and "typeof (prop_of (body req) ''overall_score'') = ''number''"
    and "fst (assertCanEvaluate s u (prop_of (body req) ''employee_id''))"
    and "insert_evaluation (snd (assertCanEvaluate s u (prop_of (body req) ''employee_id''))) now
           (prop_of (body req) ''employee_id'') (getWeekStartDate now)
           (number (prop_of (body req) ''overall_score'')) = (None, s2)"
    and "recent_evaluations s2 (prop_of (body req) ''employee_id'') 3 = (None, s3)"
  shows "evaluations_handler s now u req =
           (Thrown ''TypeError: Cannot read properties of null'', s3)"
  using assms(1,2,3) by (simp add: handler_allowed assms(4,5) Let_def)

text \<open>
  Whatever the request, the handler leaves the evaluations as they are or adds one row: for
  the employee and with the score of the body, for the week of the clock, under a key that
  was free.
\<close>

lemma handler_evaluations:
  "employee_weekly_evaluations (snd (evaluations_handler s now u req)) =
     employee_weekly_evaluations s
   \<or> (\<exists>i x. prop_of (body req) ''employee_id'' = JStr i
        \<and> prop_of (body req) ''overall_score'' = JNum x
        \<and> (i, getWeekStartDate now) \<notin> week_key ` set (employee_weekly_evaluations s)
        \<and> employee_weekly_evaluations (snd (evaluations_handler s now u req)) =
            employee_weekly_evaluations s @
            [\<lparr>v_employee_id = i, v_week_start = getWeekStartDate now, v_overall_score = x,
              v_created_at = now\<rparr>])"
proof -
  let ?id = "prop_of (body req) ''employee_id''"
  let ?sc = "prop_of (body req) ''overall_score''"
  let ?s1 = "snd (assertCanEvaluate s u ?id)"
  let ?ins = "insert_evaluation ?s1 now ?id (getWeekStartDate now) (number ?sc)"
  have rows1: "employee_weekly_evaluations ?s1 = employee_weekly_evaluations s"
    using tables_eq [THEN iffD1, OF assertCanEvaluate_tables [of s u ?id]] by simp
  consider (invalid) "\<not> truthy ?id \<or> typeof ?sc \<noteq> ''number''"
    | (denied) "truthy ?id" "typeof ?sc = ''number''" "\<not> fst (assertCanEvaluate s u ?id)"
    | (allowed) "truthy ?id" "typeof ?sc = ''number''" "fst (assertCanEvaluate s u ?id)"
    by blast
  then show ?thesis
  proof cases
    case invalid
    then show ?thesis by (simp add: handler_invalid)
  next
    case denied
    then show ?thesis by (simp add: handler_denied rows1)
  next
    case allowed
    from allowed(2) obtain x where x: "?sc = JNum x" by (cases ?sc) simp_all
    have final: "employee_weekly_evaluations (snd (evaluations_handler s now u req)) =
        employee_weekly_evaluations (snd ?ins)"
    proof (cases ?ins)
      case (Pair r s2)
      show ?thesis
      proof (cases r)
        case (Some err)
        with Pair show ?thesis by (simp add: handler_insert_failed [OF allowed])
      next
        case None
        note ins = Pair [unfolded None]
        show ?thesis
        proof (cases "fst (recent_evaluations s2 ?id 3)")
          case None
          then have "recent_evaluations s2 ?id 3 = (None, logged s2 (RecentEvaluations ?id 3))"
            by (metis prod.collapse recent_evaluations_snd)
          from handler_read_failed [OF allowed ins this] show ?thesis by (simp add: ins)
        next
          case (Some last3)
          then have "recent_evaluations s2 ?id 3 = (Some last3, logged s2 (RecentEvaluations ?id 3))"
            by (metis prod.collapse recent_evaluations_snd)
          from handler_read [OF allowed ins this] show ?thesis by (simp add: ins)
        qed
      qed
    qed
    from insert_evaluation_rows [of ?s1 now ?id "getWeekStartDate now" "number ?sc"]
    show ?thesis unfolding final rows1 using x by auto
  qed
qed

lemma post_evaluations_evaluations:
  "employee_weekly_evaluations (snd (post_evaluations e s now req)) =
     employee_weekly_evaluations s
   \<or> (\<exists>i x. prop_of (body req) ''employee_id'' = JStr i
        \<and> prop_of (body req) ''overall_score'' = JNum x
        \<and> (i, getWeekStartDate now) \<notin> week_key ` set (employee_weekly_evaluations s)
        \<and> employee_weekly_evaluations (snd (post_evaluations e s now req)) =
            employee_weekly_evaluations s @
            [\<lparr>v_employee_id = i, v_week_start = getWeekStartDate now, v_overall_score = x,
              v_created_at = now\<rparr>])"
proof (cases "protected [''supervisor'', ''hr'', ''admin''] e s now req")
  case (Pair r s1)
  have rows: "employee_weekly_evaluations s1 = employee_weekly_evaluations s"
    using tables_eq [THEN iffD1, OF protected_passed_tables [OF Pair]] by simp
  show ?thesis
  proof (cases r)
    case (Inl a)
    with Pair rows show ?thesis by (simp add: post_evaluations_def)
  next
    case (Inr u)
    with Pair have "post_evaluations e s now req = evaluations_handler s1 now u req"
      by (simp add: post_evaluations_def)
    then show ?thesis using handler_evaluations [of s1 now u req] rows by simp
  qed
qed


lemma post_evaluations_duplicate:
  assumes guards: "protected [''supervisor'', ''hr'', ''admin''] e s now req = (Inr u, s1)"
    and id: "prop_of (body req) ''employee_id'' = JStr i" "i \<noteq> []"
    and score: "prop_of (body req) ''overall_score'' = JNum x"
    and allowed: "fst (assertCanEvaluate s1 u (JStr i))"
    and answers: "fault s Evaluations Insert = None"
    and taken: "(i, getWeekStartDate now) \<in> week_key ` set (employee_weekly_evaluations s)"
  shows "post_evaluations e s now req =
    (Reply 500 (message_detail ''Insert failed''
       ''duplicate key value violates unique constraint uniq_eval_employee_week''),
     logged (snd (assertCanEvaluate s1 u (JStr i)))
       (EvaluationInsert (JStr i) (getWeekStartDate now) x))"
proof -
  let ?s2 = "snd (assertCanEvaluate s1 u (JStr i))"
  have t: "tables ?s2 = tables s"
    using protected_passed_tables [OF guards] by simp
  have f: "fault ?s2 Evaluations Insert = None" using tables_fault [OF t] answers by simp
  have k: "(i, getWeekStartDate now) \<in> week_key ` set (employee_weekly_evaluations ?s2)"
    using taken t [unfolded tables_eq] by simp
  have "truthy (prop_of (body req) ''employee_id'')"
    "typeof (prop_of (body req) ''overall_score'') = ''number''"
    "fst (assertCanEvaluate s1 u (prop_of (body req) ''employee_id''))"
    "insert_evaluation (snd (assertCanEvaluate s1 u (prop_of (body req) ''employee_id''))) now
       (prop_of (body req) ''employee_id'') (getWeekStartDate now)
       (number (prop_of (body req) ''overall_score'')) =
     (Some ''duplicate key value violates unique constraint uniq_eval_employee_week'',
      logged ?s2 (EvaluationInsert (JStr i) (getWeekStartDate now) x))"
    using id score allowed insert_evaluation_duplicate [OF f k, of now x] by simp_all
  from handler_insert_failed [OF this] show ?thesis
    by (simp add: post_evaluations_passed [OF guards])
qed

lemma prop_of_other: "k \<noteq> k' \<Longrightarrow> prop_of ((k, w) # b) k' = prop_of b k'"
  by (simp add: prop_of_def)

lemma post_evaluations_week_ignored:
  "post_evaluations e s now (req\<lparr>body := (''week_start'', w) # body req\<rparr>) =
   post_evaluations e s now req"
proof -
  let ?req = "req\<lparr>body := (''week_start'', w) # body req\<rparr>"
  have "auth e now ?req = auth e now req"
    by (cases "assertEnv e") (simp_all add: auth_def)
  then have "protected [''supervisor'', ''hr'', ''admin''] e s now ?req =
             protected [''supervisor'', ''hr'', ''admin''] e s now req"
    by (simp add: protected_def)
  moreover have "evaluations_handler s' now u ?req = evaluations_handler s' now u req" for s' u
    by (simp add: evaluations_handler_def prop_of_other)
  ultimately show ?thesis by (simp add: post_evaluations_def split: prod.splits sum.splits)
qed

text \<open>
  Claim C3. The unique index on employee and week holds after every request when it held
  before: a request adds at most one evaluation, for the week that \<open>getWeekStartDate\<close> gives
  for the server's clock, and only under a key that was free. A week that the client puts
  into the body changes nothing. A submission that passes the guards and the gate for an
  employee who has an evaluation of the current week is answered 500 \<open>Insert failed\<close>
  with the store's message; the tables stay as they were, and the insert is the last call
  to the store, so that neither the last three evaluations are read nor a warning letter
  is inserted.
\<close>

theorem one_evaluation_a_week:
  "(distinct (map week_key (employee_weekly_evaluations s)) \<longrightarrow>
      distinct (map week_key (employee_weekly_evaluations (snd (post_evaluations e s now req)))))
   \<and> (employee_weekly_evaluations (snd (post_evaluations e s now req)) =
        employee_weekly_evaluations s
      \<or> (\<exists>i x. employee_weekly_evaluations (snd (post_evaluations e s now req)) =
            employee_weekly_evaluations s @
            [\<lparr>v_employee_id = i, v_week_start = getWeekStartDate now, v_overall_score = x,
              v_created_at = now\<rparr>]))
   \<and> post_evaluations e s now (req\<lparr>body := (''week_start'', w) # body req\<rparr>) =
      post_evaluations e s now req
   \<and> (protected [''supervisor'', ''hr'', ''admin''] e s now req = (Inr u, s1)
      \<and> prop_of (body req) ''employee_id'' = JStr j \<and> j \<noteq> []
      \<and> prop_of (body req) ''overall_score'' = JNum y
      \<and> fst (assertCanEvaluate s1 u (JStr j))
      \<and> fault s Evaluations Insert = None
      \<and> (j, getWeekStartDate now) \<in> week_key ` set (employee_weekly_evaluations s)
      \<longrightarrow> fst (post_evaluations e s now req) =
            Reply 500 (message_detail ''Insert failed''
              ''duplicate key value violates unique constraint uniq_eval_employee_week'')
          \<and> tables (snd (post_evaluations e s now req)) = tables s
          \<and> calls (snd (post_evaluations e s now req)) =
              calls (snd (assertCanEvaluate s1 u (JStr j))) @
              [EvaluationInsert (JStr j) (getWeekStartDate now) y])"
proof (intro conjI impI)
  assume "distinct (map week_key (employee_weekly_evaluations s))"
  then show "distinct (map week_key (employee_weekly_evaluations (snd (post_evaluations e s now req))))"
    using post_evaluations_evaluations [of e s now req] by (auto simp: week_key_def)
next
  show "employee_weekly_evaluations (snd (post_evaluations e s now req)) =
        employee_weekly_evaluations s
      \<or> (\<exists>i x. employee_weekly_evaluations (snd (post_evaluations e s now req)) =
            employee_weekly_evaluations s @
            [\<lparr>v_employee_id = i, v_week_start = getWeekStartDate now, v_overall_score = x,
              v_created_at = now\<rparr>])"
    using post_evaluations_evaluations [of e s now req] by blast
next
  show "post_evaluations e s now (req\<lparr>body := (''week_start'', w) # body req\<rparr>) =
      post_evaluations e s now req"
    by (rule post_evaluations_week_ignored)
next
  assume a: "protected [''supervisor'', ''hr'', ''admin''] e s now req = (Inr u, s1)
      \<and> prop_of (body req) ''employee_id'' = JStr j \<and> j \<noteq> []
      \<and> prop_of (body req) ''overall_score'' = JNum y
      \<and> fst (assertCanEvaluate s1 u (JStr j))
      \<and> fault s Evaluations Insert = None
      \<and> (j, getWeekStartDate now) \<in> week_key ` set (employee_weekly_evaluations s)"
  then have p: "post_evaluations e s now req =
    (Reply 500 (message_detail ''Insert failed''
       ''duplicate key value violates unique constraint uniq_eval_employee_week''),
     logged (snd (assertCanEvaluate s1 u (JStr j)))
       (EvaluationInsert (JStr j) (getWeekStartDate now) y))"
    by (intro post_evaluations_duplicate) simp_all
  from a have "protected [''supervisor'', ''hr'', ''admin''] e s now req = (Inr u, s1)"
    by simp
  then have t: "tables s1 = tables s" by (rule protected_passed_tables)
  show "fst (post_evaluations e s now req) =
            Reply 500 (message_detail ''Insert failed''
              ''duplicate key value violates unique constraint uniq_eval_employee_week'')"
    by (simp add: p)
  show "tables (snd (post_evaluations e s now req)) = tables s"
    by (simp add: p t)
  show "calls (snd (post_evaluations e s now req)) =
              calls (snd (assertCanEvaluate s1 u (JStr j))) @
              [EvaluationInsert (JStr j) (getWeekStartDate now) y]"
    by (simp add: p)
qed


lemma sam_passes_this_week:
  "protected [''supervisor'', ''hr'', ''admin''] config shop_this_week tuesday
     (submission (token_of sam) (JStr eve) (JNum 3)) =
   (Inr sam_user, logged shop_this_week (EmployeeById (JStr sam)))"
  by (simp add: guard_defs sample_defs)

text \<open>
  The operator has her evaluation of this week since Monday; the supervisor's second one on
  Tuesday fails, and the log ends with the insert.
\<close>

theorem one_evaluation_a_week_witness:
  "distinct (map week_key (employee_weekly_evaluations shop_this_week))
   \<and> protected [''supervisor'', ''hr'', ''admin''] config shop_this_week tuesday
        (submission (token_of sam) (JStr eve) (JNum 3)) =
       (Inr sam_user, logged shop_this_week (EmployeeById (JStr sam)))
   \<and> prop_of (body (submission (token_of sam) (JStr eve) (JNum 3))) ''employee_id'' = JStr eve
   \<and> eve \<noteq> []
   \<and> prop_of (body (submission (token_of sam) (JStr eve) (JNum 3))) ''overall_score'' = JNum 3
   \<and> fst (assertCanEvaluate (logged shop_this_week (EmployeeById (JStr sam))) sam_user (JStr eve))
   \<and> fault shop_this_week Evaluations Insert = None
   \<and> (eve, getWeekStartDate tuesday) \<in> week_key ` set (employee_weekly_evaluations shop_this_week)
   \<and> fst (post_evaluations config shop_this_week tuesday
        (submission (token_of sam) (JStr eve) (JNum 3))) =
       Reply 500 (message_detail ''Insert failed''
         ''duplicate key value violates unique constraint uniq_eval_employee_week'')
   \<and> tables (snd (post_evaluations config shop_this_week tuesday
        (submission (token_of sam) (JStr eve) (JNum 3)))) = tables shop_this_week
   \<and> calls (snd (post_evaluations config shop_this_week tuesday
        (submission (token_of sam) (JStr eve) (JNum 3)))) =
       [EmployeeById (JStr sam), EmployeeById (JStr eve),
        EvaluationInsert (JStr eve) ''2026-11-02'' 3]
   \<and> distinct (map week_key (employee_weekly_evaluations
        (snd (post_evaluations config shop_this_week tuesday
           (submission (token_of sam) (JStr eve) (JNum 3))))))"
proof -
  have h: "distinct (map week_key (employee_weekly_evaluations shop_this_week))"
    "prop_of (body (submission (token_of sam) (JStr eve) (JNum 3))) ''employee_id'' = JStr eve"
    "eve \<noteq> []"
    "prop_of (body (submission (token_of sam) (JStr eve) (JNum 3))) ''overall_score'' = JNum 3"
    "fst (assertCanEvaluate (logged shop_this_week (EmployeeById (JStr sam))) sam_user (JStr eve))"
    "fault shop_this_week Evaluations Insert = None"
    "(eve, getWeekStartDate tuesday) \<in> week_key ` set (employee_weekly_evaluations shop_this_week)"
    by (simp_all add: assertCanEvaluate_fst employee_by_id_def week_tuesday week_key_def
        week_tuesday [unfolded tuesday_def] prop_of_def fault_def sample_defs Let_def)
  have c: "calls (snd (assertCanEvaluate (logged shop_this_week (EmployeeById (JStr sam)))
            sam_user (JStr eve))) = [EmployeeById (JStr sam), EmployeeById (JStr eve)]"
    by (simp add: assertCanEvaluate_snd sam_user_def shop_this_week_def shop_def)
  from one_evaluation_a_week [of shop_this_week config tuesday
      "submission (token_of sam) (JStr eve) (JNum 3)" _ sam_user
      "logged shop_this_week (EmployeeById (JStr sam))" eve 3]
    sam_passes_this_week h c
  show ?thesis by (simp add: week_tuesday)
qed

section \<open>The score that is stored\<close>





section \<open>The payload check\<close>

lemma auth_Inl:
  assumes "auth e now req = Inl r"
  shows "\<exists>b. r = Reply 500 b \<or> r = Reply 401 b"
proof (cases "assertEnv e")
  case (Some a)
  with assms show ?thesis by (auto simp: auth_def assertEnv_def Let_def split: if_splits)
next
  case None
  with assms show ?thesis
    by (auto simp: auth_def split: option.splits list.splits hword.splits if_splits)
qed

lemma hydrateUser_Inl:
  assumes "fst (hydrateUser s u) = Inl r"
  shows "r = Reply 401 (message ''Unauthorized'')"
  using assms
  by (subst (asm) hydrateUser_def, subst (asm) employee_by_id_pair)
     (auto split: prod.splits option.splits)

lemma hydrateUser_id:
  assumes "fst (hydrateUser s u) = Inr u'"
  shows "u_id u' = u_id u"
  using assms by (auto simp: hydrateUser_Inr)

lemma auth_id:
  assumes "auth e now req = Inr u"
  shows "\<exists>w t rest. authorization req = Some (w # Tok t # rest)
           \<and> jwt_verify t (the (JWT_SECRET e)) now
           \<and> u = \<lparr>u_id = jwt_id t, u_role = jwt_role t, u_manager_id = jwt_manager_id t\<rparr>"
proof (cases "assertEnv e")
  case (Some a)
  with assms show ?thesis by (simp add: auth_def)
next
  case None
  with assms show ?thesis
    by (auto simp: auth_def split: option.splits list.splits hword.splits if_splits)
qed

text \<open>A refusal by the guards is a 500, a 401 or a 403.\<close>

lemma protected_Inl:
  assumes "protected roles e s now req = (Inl r, s1)"
  shows "\<exists>b. r = Reply 500 b \<or> r = Reply 401 b \<or> r = Reply 403 b"
proof (cases "auth e now req")
  case (Inl a)
  with assms auth_Inl [OF Inl] show ?thesis by (auto simp: protected_def)
next
  case (Inr u)
  show ?thesis
  proof (cases "fst (hydrateUser s u)")
    case (Inl a)
    then have "hydrateUser s u = (Inl a, snd (hydrateUser s u))" by (metis prod.collapse)
    with assms Inr hydrateUser_Inl [OF Inl] show ?thesis by (auto simp: protected_def)
  next
    case (Inr u')
    then have "hydrateUser s u = (Inr u', snd (hydrateUser s u))" by (metis prod.collapse)
    with assms \<open>auth e now req = Inr u\<close> show ?thesis
      by (auto simp: protected_def requireRole_def split: if_splits)
  qed
qed

text \<open>Guards that pass have made one call to the store: the lookup of the caller.\<close>

lemma protected_Inr:
  assumes "protected roles e s now req = (Inr u, s1)"
  shows "s1 = logged s (EmployeeById (JStr (u_id u)))"
    and "u_role u \<in> Some ` set roles"
    and "\<exists>u0. auth e now req = Inr u0 \<and> fst (hydrateUser s u0) = Inr u"
proof -
  from assms obtain u0 where a: "auth e now req = Inr u0"
    by (cases "auth e now req") (auto simp: protected_def)
  from assms a obtain u' where h: "fst (hydrateUser s u0) = Inr u'"
    by (cases "hydrateUser s u0"; cases "fst (hydrateUser s u0)") (auto simp: protected_def)
  then have hp: "hydrateUser s u0 = (Inr u', logged s (EmployeeById (JStr (u_id u0))))"
    by (metis prod.collapse hydrateUser_snd)
  from assms a hp have r: "requireRole roles u' = Inr u"
    and s: "s1 = logged s (EmployeeById (JStr (u_id u0)))"
    by (simp_all add: protected_def)
  from r have u: "u' = u" and m: "u_role u \<in> Some ` set roles"
    by (auto simp: requireRole_def split: if_splits)
  from hydrateUser_id [OF h] u s show "s1 = logged s (EmployeeById (JStr (u_id u)))" by simp
  from m show "u_role u \<in> Some ` set roles" .
  from a h u show "\<exists>u0. auth e now req = Inr u0 \<and> fst (hydrateUser s u0) = Inr u" by auto
qed

lemma handler_valid_reply:
  assumes "truthy (prop_of (body req) ''employee_id'')"
    and "typeof (prop_of (body req) ''overall_score'') = ''number''"
  shows "fst (evaluations_handler s now u req) \<noteq> Reply 400 b"
proof (cases "fst (assertCanEvaluate s u (prop_of (body req) ''employee_id''))")
  case False
  with assms show ?thesis by (simp add: handler_denied)
next
  case True
  show ?thesis
    unfolding handler_allowed [OF assms True]
    by (auto simp: Let_def split: prod.splits option.splits)
qed


text \<open>
  Claim C6. The submission is answered 400 \<open>Invalid payload\<close> exactly when the guards
  (authentication, hydration, role gate) let the request pass and \<open>employee_id\<close> is absent
  or empty (falsy: undefined, null, false, 0 or the empty string) or \<open>overall_score\<close> is not
  of type number. When it is, the only call that the request has made to the store is the
  lookup of the caller by hydration: the target employee is not looked up, and the tables
  are as they were.
\<close>

theorem invalid_payload:
  "(fst (post_evaluations e s now req) = Reply 400 (message ''Invalid payload'') \<longleftrightarrow>
      (\<exists>u s1. protected [''supervisor'', ''hr'', ''admin''] e s now req = (Inr u, s1))
      \<and> (\<not> truthy (prop_of (body req) ''employee_id'')
          \<or> typeof (prop_of (body req) ''overall_score'') \<noteq> ''number''))
   \<and> (protected [''supervisor'', ''hr'', ''admin''] e s now req = (Inr u, s1)
      \<and> (\<not> truthy (prop_of (body req) ''employee_id'')
          \<or> typeof (prop_of (body req) ''overall_score'') \<noteq> ''number'')
      \<longrightarrow> calls (snd (post_evaluations e s now req)) = calls s @ [EmployeeById (JStr (u_id u))]
          \<and> tables (snd (post_evaluations e s now req)) = tables s)"
proof (intro conjI impI iffI)
  assume r: "fst (post_evaluations e s now req) = Reply 400 (message ''Invalid payload'')"
  obtain g s1 where p: "protected [''supervisor'', ''hr'', ''admin''] e s now req = (g, s1)"
    by (cases "protected [''supervisor'', ''hr'', ''admin''] e s now req")
  show "\<exists>u s1. protected [''supervisor'', ''hr'', ''admin''] e s now req = (Inr u, s1)"
  proof (cases g)
    case (Inl a)
    with p r protected_Inl [of _ e s now req a s1] show ?thesis
      by (auto simp: post_evaluations_def)
  next
    case (Inr u)
    with p show ?thesis by auto
  qed
  show "\<not> truthy (prop_of (body req) ''employee_id'')
          \<or> typeof (prop_of (body req) ''overall_score'') \<noteq> ''number''"
  proof (cases g)
    case (Inl a)
    with p r protected_Inl [of _ e s now req a s1] show ?thesis
      by (auto simp: post_evaluations_def)
  next
    case (Inr u)
    with p r have "fst (evaluations_handler s1 now u req) = Reply 400 (message ''Invalid payload'')"
      by (simp add: post_evaluations_def)
    with handler_valid_reply [of req s1 now u] show ?thesis by blast
  qed
next
  assume "(\<exists>u s1. protected [''supervisor'', ''hr'', ''admin''] e s now req = (Inr u, s1))
      \<and> (\<not> truthy (prop_of (body req) ''employee_id'')
          \<or> typeof (prop_of (body req) ''overall_score'') \<noteq> ''number'')"
  then show "fst (post_evaluations e s now req) = Reply 400 (message ''Invalid payload'')"
    by (auto simp: post_evaluations_def handler_invalid)
next
  assume a: "protected [''supervisor'', ''hr'', ''admin''] e s now req = (Inr u, s1)
      \<and> (\<not> truthy (prop_of (body req) ''employee_id'')
          \<or> typeof (prop_of (body req) ''overall_score'') \<noteq> ''number'')"
  then have g: "protected [''supervisor'', ''hr'', ''admin''] e s now req = (Inr u, s1)"
    by simp
  from a have "post_evaluations e s now req = (Reply 400 (message ''Invalid payload''), s1)"
    by (auto simp: post_evaluations_def handler_invalid)
  with protected_Inr(1) [OF g]
  show "calls (snd (post_evaluations e s now req)) = calls s @ [EmployeeById (JStr (u_id u))]"
    and "tables (snd (post_evaluations e s now req)) = tables s"
    by simp_all
qed

text \<open>
  The supervisor sends a score as a string, for an employee that the store does not have:
  the answer is 400, and the store has been asked for the supervisor only.
\<close>

theorem invalid_payload_witness:
  "protected [''supervisor'', ''hr'', ''admin''] config shop tuesday
     (submission (token_of sam) (JStr ''0e000000-0000-4000-8000-000000000005'') (JStr ''3.5'')) =
   (Inr sam_user, logged shop (EmployeeById (JStr sam)))
   \<and> typeof (prop_of (body (submission (token_of sam)
        (JStr ''0e000000-0000-4000-8000-000000000005'') (JStr ''3.5''))) ''overall_score'')
      \<noteq> ''number''
   \<and> fst (post_evaluations config shop tuesday
        (submission (token_of sam) (JStr ''0e000000-0000-4000-8000-000000000005'') (JStr ''3.5''))) =
      Reply 400 (message ''Invalid payload'')
   \<and> calls (snd (post_evaluations config shop tuesday
        (submission (token_of sam) (JStr ''0e000000-0000-4000-8000-000000000005'') (JStr ''3.5'')))) =
      [EmployeeById (JStr sam)]"
proof -
  let ?req = "submission (token_of sam) (JStr ''0e000000-0000-4000-8000-000000000005'')
                (JStr ''3.5'')"
  have g: "protected [''supervisor'', ''hr'', ''admin''] config shop tuesday ?req =
           (Inr sam_user, logged shop (EmployeeById (JStr sam)))"
    by (simp add: guard_defs sample_defs)
  have t: "typeof (prop_of (body ?req) ''overall_score'') \<noteq> ''number''"
    by (simp add: submission_def prop_of_def)
  from invalid_payload [of config shop tuesday ?req sam_user
      "logged shop (EmployeeById (JStr sam))"] g t
  show ?thesis by (simp add: sam_user_def shop_def)
qed

section \<open>Login\<close>

lemma employee_by_email_pair:
  "employee_by_email s a = (fst (employee_by_email s a), logged s (EmployeeByEmail a))"
  by (metis employee_by_email_snd prod.collapse)

lemma employee_by_email_Some:
  "fst (fst (employee_by_email s a)) = Some r \<longleftrightarrow>
     fault s Employees Select = None \<and> filter (\<lambda>r. e_email r = a) (employees s) = [r]"
  by (auto simp: employee_by_email_def Let_def single_Some split: option.splits)

lemma post_login_reply:
  assumes "assertEnv e = None"
  shows "fst (post_login compare str e s now req) =
    (case fst (fst (employee_by_email s (normalizeEmail str (prop_of (body req) ''email'')))) of
       None \<Rightarrow> Reply 400 (message ''Invalid credentials'')
     | Some u \<Rightarrow>
         if \<not> compare (js_String str (if truthy (prop_of (body req) ''password'')
                                       then prop_of (body req) ''password'' else JStr []))
               (e_password_hash u)
         then Reply 400 (message ''Invalid credentials'')
         else Reply 200 (JObj [(''token'', JTok (jwt_sign (e_id u) (the (JWT_SECRET e)) now))]))"
  unfolding post_login_def Let_def
  by (subst employee_by_email_pair) (simp add: assms split: prod.splits option.splits)

text \<open>
  Claim C7. On a configured deployment, a login with an email that no employee has and a
  login with the email of exactly one employee and a password that \<open>bcrypt.compare\<close> refuses
  get the same response: status 400 and the body \<open>{message: "Invalid credentials"}\<close>. The
  two logins may meet different stores at different times.
\<close>

theorem login_failures_alike:
  assumes env: "assertEnv e = None"
    and unknown: "\<forall>r \<in> set (employees s).
                    e_email r \<noteq> normalizeEmail str (prop_of (body req) ''email'')"
    and known: "filter (\<lambda>r. e_email r = normalizeEmail str (prop_of (body req') ''email''))
                  (employees s') = [u]"
      "fault s' Employees Select = None"
    and wrong: "\<not> compare (js_String str (if truthy (prop_of (body req') ''password'')
                                          then prop_of (body req') ''password'' else JStr []))
                  (e_password_hash u)"
  shows "fst (post_login compare str e s now req) = Reply 400 (message ''Invalid credentials'')
    \<and> fst (post_login compare str e s' now' req') = Reply 400 (message ''Invalid credentials'')"
proof -
  let ?a = "normalizeEmail str (prop_of (body req) ''email'')"
  let ?a' = "normalizeEmail str (prop_of (body req') ''email'')"
  have "filter (\<lambda>r. e_email r = ?a) (employees s) = []"
    using unknown by (simp add: filter_empty_conv)
  then have "fst (fst (employee_by_email s ?a)) = None"
    by (simp add: employee_by_email_def Let_def split: option.splits)
  then have 1: "fst (post_login compare str e s now req) = Reply 400 (message ''Invalid credentials'')"
    by (simp add: post_login_reply [OF env])
  have "fst (fst (employee_by_email s' ?a')) = Some u"
    using known by (simp add: employee_by_email_Some)
  then have 2: "fst (post_login compare str e s' now' req') = Reply 400 (message ''Invalid credentials'')"
    using wrong by (simp add: post_login_reply [OF env])
  from 1 2 show ?thesis by simp
qed

lemma normalize_nobody:
  "normalizeEmail sample_str (JStr ''nobody@example.com'') = ''nobody@example.com''"
  by (simp add: normalizeEmail_def js_String_def trim_def white_space_def toLowerCase_def
      lower_char_def)

lemma normalize_ada:
  "normalizeEmail sample_str (JStr '' Ada@Example.com'') = ''ada@example.com''"
  by (simp add: normalizeEmail_def js_String_def trim_def white_space_def toLowerCase_def
      lower_char_def)

text \<open>Nobody is not on the staff, and the administrator's password is not \<open>guess\<close>.\<close>

theorem login_failures_alike_witness:
  "assertEnv config = None
   \<and> normalizeEmail sample_str
        (prop_of (body (login_request (JStr ''nobody@example.com'') (JStr ''guess''))) ''email'')
       \<notin> e_email ` set (employees shop)
   \<and> filter (\<lambda>r. e_email r = normalizeEmail sample_str
          (prop_of (body (login_request (JStr '' Ada@Example.com'') (JStr ''guess''))) ''email''))
        (employees shop) = [hd staff]
   \<and> fault shop Employees Select = None
   \<and> \<not> sample_compare ''guess'' (e_password_hash (hd staff))
   \<and> fst (post_login sample_compare sample_str config shop tuesday
        (login_request (JStr ''nobody@example.com'') (JStr ''guess''))) =
      Reply 400 (message ''Invalid credentials'')
   \<and> fst (post_login sample_compare sample_str config shop tuesday
        (login_request (JStr '' Ada@Example.com'') (JStr ''guess''))) =
      Reply 400 (message ''Invalid credentials'')"
proof -
  have h: "assertEnv config = None"
    "\<forall>r \<in> set (employees shop).
        e_email r \<noteq> normalizeEmail sample_str
          (prop_of (body (login_request (JStr ''nobody@example.com'') (JStr ''guess''))) ''email'')"
    "filter (\<lambda>r. e_email r = normalizeEmail sample_str
          (prop_of (body (login_request (JStr '' Ada@Example.com'') (JStr ''guess''))) ''email''))
        (employees shop) = [hd staff]"
    "fault shop Employees Select = None"
    "\<not> sample_compare (js_String sample_str
          (if truthy (prop_of (body (login_request (JStr '' Ada@Example.com'') (JStr ''guess'')))
                ''password'')
           then prop_of (body (login_request (JStr '' Ada@Example.com'') (JStr ''guess'')))
                ''password''
           else JStr []))
        (e_password_hash (hd staff))"
    by (simp_all add: assertEnv_def unset_def config_def login_request_def prop_of_def
        normalize_nobody normalize_ada shop_def staff_def fault_def sample_compare_def
        js_String_def)
  have w: "\<not> sample_compare ''guess'' (e_password_hash (hd staff))"
    by (simp add: sample_compare_def staff_def)
  from login_failures_alike [where compare = sample_compare and str = sample_str
      and e = config and s = shop and s' = shop and u = "hd staff"
      and req = "login_request (JStr ''nobody@example.com'') (JStr ''guess'')"
      and req' = "login_request (JStr '' Ada@Example.com'') (JStr ''guess'')"
      and now = tuesday and now' = tuesday, OF h]
  have r: "fst (post_login sample_compare sample_str config shop tuesday
        (login_request (JStr ''nobody@example.com'') (JStr ''guess''))) =
      Reply 400 (message ''Invalid credentials'')"
    "fst (post_login sample_compare sample_str config shop tuesday
        (login_request (JStr '' Ada@Example.com'') (JStr ''guess''))) =
      Reply 400 (message ''Invalid credentials'')"
    by simp_all
  have n: "normalizeEmail sample_str
        (prop_of (body (login_request (JStr ''nobody@example.com'') (JStr ''guess''))) ''email'')
       \<notin> e_email ` set (employees shop)"
    using h(2) by auto
  from h(1) n h(3,4) w r show ?thesis by blast
qed

section \<open>What a token carries\<close>

lemma hydrateUser_same_id:
  assumes "u_id u = u_id u'"
  shows "hydrateUser s u = hydrateUser s u'"
proof -
  have "u\<lparr>u_role := r, u_manager_id := m\<rparr> = u'\<lparr>u_role := r, u_manager_id := m\<rparr>" for r m
    using assms by (cases u, cases u') simp
  then show ?thesis by (simp add: hydrateUser_def assms split: prod.splits option.splits)
qed

lemma protected_same_id:
  assumes "auth e now req = Inr u" and "auth e now req' = Inr u'" and "u_id u = u_id u'"
  shows "protected roles e s now req = protected roles e s now req'"
  using assms(1,2) hydrateUser_same_id [OF assms(3), of s] by (simp add: protected_def)

lemma handler_same_body:
  assumes "body req = body req'"
  shows "evaluations_handler s now u req = evaluations_handler s now u req'"
  by (simp add: evaluations_handler_def assms)

lemma auth_token:
  assumes "assertEnv e = None" and "jwt_verify t (the (JWT_SECRET e)) now"
  shows "auth e now \<lparr>authorization = Some [w, Tok t], body = b\<rparr> =
         Inr \<lparr>u_id = jwt_id t, u_role = jwt_role t, u_manager_id = jwt_manager_id t\<rparr>"
  using assms by (simp add: auth_def)

lemma auth_env:
  assumes "assertEnv e = Some r"
  shows "auth e now req = Inl r"
  using assms by (simp add: auth_def)

lemma post_login_token:
  assumes "fst (post_login compare str e s now req) = Reply 200 b"
  shows "\<exists>u \<in> set (employees s). b = JObj [(''token'', JTok (jwt_sign (e_id u) (the (JWT_SECRET e)) now))]"
proof (cases "assertEnv e")
  case (Some r)
  with assms show ?thesis
    by (auto simp: post_login_def assertEnv_def Let_def split: if_splits)
next
  case None
  let ?a = "normalizeEmail str (prop_of (body req) ''email'')"
  show ?thesis
  proof (cases "fst (fst (employee_by_email s ?a))")
    case None
    with assms \<open>assertEnv e = None\<close> show ?thesis
      by (simp add: post_login_reply message_def)
  next
    case (Some u)
    then have "filter (\<lambda>r. e_email r = ?a) (employees s) = [u]"
      by (simp add: employee_by_email_Some)
    then have "u \<in> set (filter (\<lambda>r. e_email r = ?a) (employees s))" by simp
    then have "u \<in> set (employees s)" by simp
    with Some assms \<open>assertEnv e = None\<close> show ?thesis
      by (auto simp: post_login_reply message_def split: if_splits)
  qed
qed

text \<open>
  Claim C4. A token that a login issues holds the id of the employee, the time of issue
  and an expiry 3600 seconds later, and neither a role nor a manager; it verifies until the
  clock reaches the expiry. The guards build the
  caller's role and manager from the caller's row in the store as it is at the request,
  with one lookup per request. Two valid tokens of the same id, whatever else they claim,
  get the same outcome for the same body on the same store: the outcome is a function of
  the id and the store at the time of the request.
\<close>

theorem role_from_store:
  "(fst (post_login compare str e s now credentials) = Reply 200 b \<longrightarrow>
      (\<exists>r \<in> set (employees s).
         b = JObj [(''token'', JTok \<lparr>jwt_id = e_id r, jwt_role = None, jwt_manager_id = None,
                     jwt_iat = seconds now, jwt_exp = seconds now + 3600,
                     jwt_key = the (JWT_SECRET e)\<rparr>)]))
   \<and> (jwt_verify (jwt_sign i k now) k later \<longleftrightarrow> seconds later < seconds now + 3600)
   \<and> (protected roles e s now req = (Inr u, s1) \<longrightarrow>
      (\<exists>w t rest f. authorization req = Some (w # Tok t # rest)
         \<and> filter (\<lambda>r. e_id r = jwt_id t) (employees s) = [f]
         \<and> u = \<lparr>u_id = jwt_id t, u_role = Some (e_role f), u_manager_id = e_manager_id f\<rparr>
         \<and> s1 = logged s (EmployeeById (JStr (jwt_id t)))))
   \<and> (jwt_id t = jwt_id t' \<and> jwt_verify t (the (JWT_SECRET e)) now
        \<and> jwt_verify t' (the (JWT_SECRET e)) now \<longrightarrow>
      post_evaluations e s now \<lparr>authorization = Some [w, Tok t], body = payload\<rparr> =
      post_evaluations e s now \<lparr>authorization = Some [w', Tok t'], body = payload\<rparr>)"
proof (intro conjI impI)
  assume "fst (post_login compare str e s now credentials) = Reply 200 b"
  from post_login_token [OF this]
  show "\<exists>r \<in> set (employees s).
         b = JObj [(''token'', JTok \<lparr>jwt_id = e_id r, jwt_role = None, jwt_manager_id = None,
                     jwt_iat = seconds now, jwt_exp = seconds now + 3600,
                     jwt_key = the (JWT_SECRET e)\<rparr>)]"
    by (simp add: jwt_sign_def)
next
  assume g: "protected roles e s now req = (Inr u, s1)"
  from protected_Inr(3) [OF g] obtain u0
    where a: "auth e now req = Inr u0" and h: "fst (hydrateUser s u0) = Inr u"
    by blast
  from auth_id [OF a] obtain w t rest
    where w: "authorization req = Some (w # Tok t # rest)"
      and u0: "u0 = \<lparr>u_id = jwt_id t, u_role = jwt_role t, u_manager_id = jwt_manager_id t\<rparr>"
    by blast
  from h obtain f where f: "fst (fst (employee_by_id s (JStr (u_id u0)))) = Some f"
    and u: "u = u0\<lparr>u_role := Some (e_role f), u_manager_id := e_manager_id f\<rparr>"
    by (auto simp: hydrateUser_Inr)
  from f have "filter (\<lambda>r. e_id r = jwt_id t) (employees s) = [f]"
    by (simp add: employee_by_id_Some u0)
  moreover from u have "u = \<lparr>u_id = jwt_id t, u_role = Some (e_role f),
                           u_manager_id = e_manager_id f\<rparr>"
    by (simp add: u0)
  moreover from protected_Inr(1) [OF g] u have "s1 = logged s (EmployeeById (JStr (jwt_id t)))"
    by (simp add: u0)
  ultimately show "\<exists>w t rest f. authorization req = Some (w # Tok t # rest)
         \<and> filter (\<lambda>r. e_id r = jwt_id t) (employees s) = [f]
         \<and> u = \<lparr>u_id = jwt_id t, u_role = Some (e_role f), u_manager_id = e_manager_id f\<rparr>
         \<and> s1 = logged s (EmployeeById (JStr (jwt_id t)))"
    using w by blast
next
  assume a: "jwt_id t = jwt_id t' \<and> jwt_verify t (the (JWT_SECRET e)) now
        \<and> jwt_verify t' (the (JWT_SECRET e)) now"
  let ?req = "\<lparr>authorization = Some [w, Tok t], body = payload\<rparr>"
  let ?req' = "\<lparr>authorization = Some [w', Tok t'], body = payload\<rparr>"
  show "post_evaluations e s now ?req = post_evaluations e s now ?req'"
  proof (cases "assertEnv e")
    case (Some r)
    then show ?thesis by (simp add: post_evaluations_def protected_def auth_env)
  next
    case None
    from a have "protected [''supervisor'', ''hr'', ''admin''] e s now ?req =
                 protected [''supervisor'', ''hr'', ''admin''] e s now ?req'"
      by (intro protected_same_id [OF auth_token [OF None] auth_token [OF None]]) simp_all
    moreover have "evaluations_handler s' now u ?req = evaluations_handler s' now u ?req'" for s' u
      by (rule handler_same_body) simp
    ultimately show ?thesis
      by (simp add: post_evaluations_def split: prod.splits sum.splits)
  qed
next
  show "jwt_verify (jwt_sign i k now) k later \<longleftrightarrow> seconds later < seconds now + 3600"
    by (simp add: jwt_verify_def jwt_sign_def)
qed


lemmas handler_defs = post_evaluations_def evaluations_handler_def assertCanEvaluate_def
  insert_evaluation_def recent_evaluations_def insert_warning_def prop_of_def low_count_def
  message_def

lemma sam_login:
  "fst (post_login sample_compare sample_str config shop tuesday
     (login_request (JStr ''sam@example.com'') (JStr ''sam''))) =
   Reply 200 (JObj [(''token'', JTok (jwt_sign sam ''signing-secret'' tuesday))])"
  by (simp add: post_login_def assertEnv_def unset_def config_def login_request_def prop_of_def
      normalizeEmail_def js_String_def trim_def white_space_def toLowerCase_def lower_char_def
      employee_by_email_def fault_def shop_def staff_def sample_compare_def Let_def)

lemma sam_passes:
  "protected [''supervisor'', ''hr'', ''admin''] config shop tuesday
     (submission (token_of sam) i x) =
   (Inr sam_user, logged shop (EmployeeById (JStr sam)))"
  by (simp add: guard_defs sample_defs)

lemma sam_evaluates_eve:
  "fst (post_evaluations config shop tuesday (submission (token_of sam) (JStr eve) (JNum 4))) =
   Reply 200 (JObj [(''success'', JBool True)])"
proof -
  have h: "prop_of (body (submission (token_of sam) (JStr eve) (JNum 4))) ''employee_id'' = JStr eve"
    "eve \<noteq> []"
    "prop_of (body (submission (token_of sam) (JStr eve) (JNum 4))) ''overall_score'' = JNum 4"
    "fst (assertCanEvaluate (logged shop (EmployeeById (JStr sam))) sam_user (JStr eve))"
    "(eve, getWeekStartDate tuesday) \<notin> week_key ` set (employee_weekly_evaluations shop)"
    "fault shop Evaluations Insert = None"
    "fault shop Evaluations Select = None"
    by (simp_all add: assertCanEvaluate_fst employee_by_id_def prop_of_def fault_def
        sample_defs Let_def)
  from post_passed(2) [OF sam_passes h] show ?thesis .
qed

lemma sam_after_move:
  "fst (post_evaluations config shop_eve_moved tuesday
     (submission (token_of sam) (JStr eve) (JNum 4))) = Reply 403 (message ''Forbidden'')"
  by (simp add: handler_defs guard_defs sample_defs)

lemma sam_after_demotion:
  "fst (post_evaluations config shop_sam_demoted tuesday
     (submission (token_of sam) (JStr eve) (JNum 4))) = Reply 403 (message ''Forbidden'')"
  by (simp add: handler_defs guard_defs sample_defs)

lemma claim_is_ignored:
  "fst (post_evaluations config shop tuesday (submission claiming_admin (JStr oli) (JNum 4))) =
   Reply 403 (message ''Forbidden'')"
  by (simp add: handler_defs guard_defs sample_defs)

text \<open>
  The supervisor logs in and evaluates his operator. On the next request with the same token
  the answer is 403 once the operator has another manager, and once the supervisor is an
  operator himself. A token of his that claims the role of an administrator is treated as
  his plain token is: it does not let him evaluate the administrator's operator.
\<close>

theorem role_from_store_witness:
  "fst (post_login sample_compare sample_str config shop tuesday
     (login_request (JStr ''sam@example.com'') (JStr ''sam''))) =
   Reply 200 (JObj [(''token'', JTok (jwt_sign sam ''signing-secret'' tuesday))])
   \<and> jwt_sign sam ''signing-secret'' tuesday =
       \<lparr>jwt_id = sam, jwt_role = None, jwt_manager_id = None, jwt_iat = seconds tuesday,
        jwt_exp = seconds tuesday + 3600, jwt_key = the (JWT_SECRET config)\<rparr>
   \<and> protected [''supervisor'', ''hr'', ''admin''] config shop tuesday
        (submission (token_of sam) (JStr eve) (JNum 4)) =
       (Inr sam_user, logged shop (EmployeeById (JStr sam)))
   \<and> jwt_id (token_of sam) = jwt_id claiming_admin
   \<and> jwt_verify (token_of sam) (the (JWT_SECRET config)) tuesday
   \<and> jwt_verify claiming_admin (the (JWT_SECRET config)) tuesday
   \<and> post_evaluations config shop tuesday (submission (token_of sam) (JStr oli) (JNum 4)) =
       post_evaluations config shop tuesday (submission claiming_admin (JStr oli) (JNum 4))
   \<and> fst (post_evaluations config shop tuesday (submission claiming_admin (JStr oli) (JNum 4))) =
       Reply 403 (message ''Forbidden'')
   \<and> fst (post_evaluations config shop tuesday (submission (token_of sam) (JStr eve) (JNum 4))) =
       Reply 200 (JObj [(''success'', JBool True)])
   \<and> fst (post_evaluations config shop_eve_moved tuesday
        (submission (token_of sam) (JStr eve) (JNum 4))) = Reply 403 (message ''Forbidden'')
   \<and> fst (post_evaluations config shop_sam_demoted tuesday
        (submission (token_of sam) (JStr eve) (JNum 4))) = Reply 403 (message ''Forbidden'')"
proof -
  have t: "jwt_id (token_of sam) = jwt_id claiming_admin"
    "jwt_verify (token_of sam) (the (JWT_SECRET config)) tuesday"
    "jwt_verify claiming_admin (the (JWT_SECRET config)) tuesday"
    by (simp_all add: claiming_admin_def token_of_def jwt_sign_def jwt_verify_def seconds_def
        config_def tuesday_def)
  have j: "jwt_sign sam ''signing-secret'' tuesday =
       \<lparr>jwt_id = sam, jwt_role = None, jwt_manager_id = None, jwt_iat = seconds tuesday,
        jwt_exp = seconds tuesday + 3600, jwt_key = the (JWT_SECRET config)\<rparr>"
    by (simp add: jwt_sign_def config_def)
  from role_from_store [where compare = sample_compare and str = sample_str and e = config
      and s = shop and now = tuesday
      and credentials = "login_request (JStr ''sam@example.com'') (JStr ''sam'')"
      and t = "token_of sam" and t' = claiming_admin and w = "Word ''Bearer''"
      and w' = "Word ''Bearer''"
      and payload = "[(''employee_id'', JStr oli), (''overall_score'', JNum 4)]"]
    t
  have "post_evaluations config shop tuesday (submission (token_of sam) (JStr oli) (JNum 4)) =
       post_evaluations config shop tuesday (submission claiming_admin (JStr oli) (JNum 4))"
    by (simp add: submission_def)
  with sam_login j sam_passes t claim_is_ignored sam_evaluates_eve sam_after_move
    sam_after_demotion
  show ?thesis by simp
qed

section \<open>Errors of the store\<close>

text \<open>
  Claim C8 says that every error of the store reaches the caller with a generic message and
  the store's detail. On a store without the table of warning letters the supervisor's
  second low evaluation of his operator makes the handler try the insert of a warning letter,
  which fails; the answer is \<open>{success: true}\<close> all the same and no letter is stored. On a
  store that cannot be reached for the employees the answer is 401 \<open>Unauthorized\<close>, with
  nothing of the store's error in it.
\<close>

theorem store_errors_unreported:
  "fault shop_no_letters Warnings Insert = Some ''relation warning_letters does not exist''
   \<and> last (calls (snd (post_evaluations config shop_no_letters tuesday
        (submission (token_of sam) (JStr eve) (JNum 2))))) = WarningInsert (JStr eve) ''high'' ''active''
   \<and> fst (post_evaluations config shop_no_letters tuesday
        (submission (token_of sam) (JStr eve) (JNum 2))) = Reply 200 (JObj [(''success'', JBool True)])
   \<and> warning_letters (snd (post_evaluations config shop_no_letters tuesday
        (submission (token_of sam) (JStr eve) (JNum 2)))) = []
   \<and> fault shop_unreachable Employees Select = Some ''connection refused''
   \<and> fst (post_evaluations config shop_unreachable tuesday
        (submission (token_of sam) (JStr eve) (JNum 2))) = Reply 401 (JObj [(''message'', JStr ''Unauthorized'')])"
  by (simp add: handler_defs guard_defs sample_defs week_tuesday [unfolded tuesday_def])


lemma insert_evaluation_fault:
  assumes "fault s Evaluations Insert = Some err"
  shows "fst (insert_evaluation s now v w x) = Some err"
  using assms by (simp add: insert_evaluation_def Let_def)

lemma post_evaluations_insert_error:
  assumes guards: "protected [''supervisor'', ''hr'', ''admin''] e s now req = (Inr u, s1)"
    and valid: "truthy (prop_of (body req) ''employee_id'')"
      "typeof (prop_of (body req) ''overall_score'') = ''number''"
    and allowed: "fst (assertCanEvaluate s1 u (prop_of (body req) ''employee_id''))"
    and err: "fault s Evaluations Insert = Some err"
  shows "fst (post_evaluations e s now req) = Reply 500 (message_detail ''Insert failed'' err)"
proof -
  let ?s2 = "snd (assertCanEvaluate s1 u (prop_of (body req) ''employee_id''))"
  let ?ins = "insert_evaluation ?s2 now (prop_of (body req) ''employee_id'')
                (getWeekStartDate now) (number (prop_of (body req) ''overall_score''))"
  have t: "tables ?s2 = tables s"
    using protected_passed_tables [OF guards] by simp
  have "fault ?s2 Evaluations Insert = Some err" using tables_fault [OF t] err by simp
  then have "fst ?ins = Some err" by (rule insert_evaluation_fault)
  then have "?ins = (Some err, snd ?ins)" by (metis prod.collapse)
  from handler_insert_failed [OF valid allowed this] show ?thesis
    by (simp add: post_evaluations_passed [OF guards])
qed

lemma risk_query_error:
  assumes guards: "protected [''hr'', ''admin''] e s now req = (Inr u, s1)"
    and err: "fault s Warnings Select = Some err"
  shows "fst (get_department_risk e s now req) = Reply 500 (message_detail ''Query failed'' err)"
proof -
  have "fault s1 Warnings Select = Some err"
    using tables_fault [OF protected_passed_tables [OF guards]] err by simp
  then show ?thesis
    by (simp add: get_department_risk_def guards warnings_by_status_def Let_def)
qed

lemma hydration_error:
  assumes "auth e now req = Inr u" and "fault s Employees Select = Some err"
  shows "fst (protected roles e s now req) = Inl (Reply 401 (message ''Unauthorized''))"
  using assms
  by (simp add: protected_def hydrateUser_def employee_by_id_def Let_def)

lemma login_lookup_error:
  assumes "assertEnv e = None" and "fault s Employees Select = Some err"
  shows "fst (post_login compare str e s now req) = Reply 400 (message ''Invalid credentials'')"
  using assms by (simp add: post_login_reply employee_by_email_def Let_def)

text \<open>
  Claim C8, amended. A failure of the insert of the evaluation is answered 500
  \<open>Insert failed\<close>, and a failure of the query of the risk report 500 \<open>Query failed\<close>,
  each with the store's message as detail. A failure of the lookup of an employee is
  answered with a generic message and without detail: 401 \<open>Unauthorized\<close> when it is the
  lookup of hydration, on either protected route, and 400 \<open>Invalid credentials\<close> when it is
  the lookup of the login.
\<close>

theorem store_errors_surfaced:
  "(protected [''supervisor'', ''hr'', ''admin''] e s now req = (Inr u, s1)
      \<and> truthy (prop_of (body req) ''employee_id'')
      \<and> typeof (prop_of (body req) ''overall_score'') = ''number''
      \<and> fst (assertCanEvaluate s1 u (prop_of (body req) ''employee_id''))
      \<and> fault s Evaluations Insert = Some err
    \<longrightarrow> fst (post_evaluations e s now req) = Reply 500 (message_detail ''Insert failed'' err))
   \<and> (protected [''hr'', ''admin''] e s now req = (Inr u, s1)
      \<and> fault s Warnings Select = Some err
    \<longrightarrow> fst (get_department_risk e s now req) = Reply 500 (message_detail ''Query failed'' err))
   \<and> (auth e now req = Inr u \<and> fault s Employees Select = Some err
    \<longrightarrow> fst (post_evaluations e s now req) = Reply 401 (message ''Unauthorized'')
        \<and> fst (get_department_risk e s now req) = Reply 401 (message ''Unauthorized''))
   \<and> (assertEnv e = None \<and> fault s Employees Select = Some err
    \<longrightarrow> fst (post_login compare str e s now credentials) =
          Reply 400 (message ''Invalid credentials''))"
proof (intro conjI impI)
  assume "protected [''supervisor'', ''hr'', ''admin''] e s now req = (Inr u, s1)
      \<and> truthy (prop_of (body req) ''employee_id'')
      \<and> typeof (prop_of (body req) ''overall_score'') = ''number''
      \<and> fst (assertCanEvaluate s1 u (prop_of (body req) ''employee_id''))
      \<and> fault s Evaluations Insert = Some err"
  then show "fst (post_evaluations e s now req) = Reply 500 (message_detail ''Insert failed'' err)"
    by (intro post_evaluations_insert_error [of e s now req u s1]) simp_all
next
  assume "protected [''hr'', ''admin''] e s now req = (Inr u, s1)
      \<and> fault s Warnings Select = Some err"
  then show "fst (get_department_risk e s now req) = Reply 500 (message_detail ''Query failed'' err)"
    by (intro risk_query_error [of e s now req u s1]) simp_all
next
  assume a: "auth e now req = Inr u \<and> fault s Employees Select = Some err"
  then have h: "fst (protected roles e s now req) = Inl (Reply 401 (message ''Unauthorized''))"
    for roles
    by (intro hydration_error [of e now req u s err]) simp_all
  show "fst (post_evaluations e s now req) = Reply 401 (message ''Unauthorized'')"
    using h [of "[''supervisor'', ''hr'', ''admin'']"]
    by (cases "protected [''supervisor'', ''hr'', ''admin''] e s now req")
       (simp add: post_evaluations_def)
  show "fst (get_department_risk e s now req) = Reply 401 (message ''Unauthorized'')"
    using h [of "[''hr'', ''admin'']"]
    by (cases "protected [''hr'', ''admin''] e s now req")
       (simp add: get_department_risk_def)
next
  assume "assertEnv e = None \<and> fault s Employees Select = Some err"
  then show "fst (post_login compare str e s now credentials) =
          Reply 400 (message ''Invalid credentials'')"
    by (intro login_lookup_error [of e s err]) simp_all
qed


text \<open>
  On the store that refuses writes of evaluations and reads of warning letters, the
  supervisor's evaluation and the administrator's risk report get a 500 with the store's
  message; on the store that cannot be reached, the supervisor's valid token gets a 401 and
  a login a 400.
\<close>

theorem store_errors_surfaced_witness:
  "protected [''supervisor'', ''hr'', ''admin''] config shop_denied tuesday
     (submission (token_of sam) (JStr eve) (JNum 4)) =
   (Inr sam_user, logged shop_denied (EmployeeById (JStr sam)))
   \<and> fst (assertCanEvaluate (logged shop_denied (EmployeeById (JStr sam))) sam_user (JStr eve))
   \<and> fault shop_denied Evaluations Insert =
       Some ''permission denied for table employee_weekly_evaluations''
   \<and> fst (post_evaluations config shop_denied tuesday
        (submission (token_of sam) (JStr eve) (JNum 4))) =
       Reply 500 (message_detail ''Insert failed''
         ''permission denied for table employee_weekly_evaluations'')
   \<and> protected [''hr'', ''admin''] config shop_denied tuesday (risk_request (token_of ada)) =
       (Inr ada_user, logged shop_denied (EmployeeById (JStr ada)))
   \<and> fault shop_denied Warnings Select = Some ''permission denied for table warning_letters''
   \<and> fst (get_department_risk config shop_denied tuesday (risk_request (token_of ada))) =
       Reply 500 (message_detail ''Query failed'' ''permission denied for table warning_letters'')
   \<and> auth config tuesday (submission (token_of sam) (JStr eve) (JNum 4)) =
       Inr \<lparr>u_id = sam, u_role = None, u_manager_id = None\<rparr>
   \<and> fault shop_unreachable Employees Select = Some ''connection refused''
   \<and> fst (post_evaluations config shop_unreachable tuesday
        (submission (token_of sam) (JStr eve) (JNum 4))) = Reply 401 (message ''Unauthorized'')
   \<and> assertEnv config = None
   \<and> fst (post_login sample_compare sample_str config shop_unreachable tuesday
        (login_request (JStr ''sam@example.com'') (JStr ''sam''))) =
       Reply 400 (message ''Invalid credentials'')"
proof -
  let ?req = "submission (token_of sam) (JStr eve) (JNum 4)"
  have g1: "protected [''supervisor'', ''hr'', ''admin''] config shop_denied tuesday ?req =
            (Inr sam_user, logged shop_denied (EmployeeById (JStr sam)))"
    by (simp add: guard_defs sample_defs)
  have g2: "protected [''hr'', ''admin''] config shop_denied tuesday (risk_request (token_of ada)) =
            (Inr ada_user, logged shop_denied (EmployeeById (JStr ada)))"
    by (simp add: guard_defs sample_defs)
  have h: "truthy (prop_of (body ?req) ''employee_id'')"
    "typeof (prop_of (body ?req) ''overall_score'') = ''number''"
    "prop_of (body ?req) ''employee_id'' = JStr eve"
    "fst (assertCanEvaluate (logged shop_denied (EmployeeById (JStr sam))) sam_user (JStr eve))"
    "fault shop_denied Evaluations Insert =
       Some ''permission denied for table employee_weekly_evaluations''"
    "fault shop_denied Warnings Select = Some ''permission denied for table warning_letters''"
    "fault shop_unreachable Employees Select = Some ''connection refused''"
    "assertEnv config = None"
    by (simp_all add: assertCanEvaluate_fst employee_by_id_def prop_of_def fault_def
        assertEnv_def unset_def sample_defs Let_def)
  have a: "auth config tuesday ?req = Inr \<lparr>u_id = sam, u_role = None, u_manager_id = None\<rparr>"
    by (simp add: auth_def assertEnv_def unset_def jwt_sign_def jwt_verify_def seconds_def
        sample_defs)
  from store_errors_surfaced [of config shop_denied tuesday ?req sam_user
      "logged shop_denied (EmployeeById (JStr sam))"
      "''permission denied for table employee_weekly_evaluations''"] g1 h
  have 1: "fst (post_evaluations config shop_denied tuesday ?req) =
       Reply 500 (message_detail ''Insert failed''
         ''permission denied for table employee_weekly_evaluations'')"
    by simp
  from store_errors_surfaced [of config shop_denied tuesday "risk_request (token_of ada)" ada_user
      "logged shop_denied (EmployeeById (JStr ada))"
      "''permission denied for table warning_letters''"] g2 h
  have 2: "fst (get_department_risk config shop_denied tuesday (risk_request (token_of ada))) =
       Reply 500 (message_detail ''Query failed'' ''permission denied for table warning_letters'')"
    by simp
  from store_errors_surfaced [of config shop_unreachable tuesday ?req
      "\<lparr>u_id = sam, u_role = None, u_manager_id = None\<rparr>" _ "''connection refused''"
      sample_compare sample_str "login_request (JStr ''sam@example.com'') (JStr ''sam'')"] a h
  have 3: "fst (post_evaluations config shop_unreachable tuesday ?req) =
             Reply 401 (message ''Unauthorized'')"
    "fst (post_login sample_compare sample_str config shop_unreachable tuesday
        (login_request (JStr ''sam@example.com'') (JStr ''sam''))) =
       Reply 400 (message ''Invalid credentials'')"
    by simp_all
  from g1 g2 h a 1 2 3 show ?thesis by simp
qed

end
